theory Spec2Isabelle
  imports Main
begin

section \<open>JavaScript values\<close>

text \<open>
  The values that flow through the client at run time. Strings are byte strings (the
  UTF-8 encoding of the JavaScript string), numbers are the integers among the
  JavaScript numbers, objects are their own enumerable properties in enumeration order.
  Functions and the host objects that \<open>serializeBody\<close> and \<open>getContentType\<close> test for
  are opaque: a function is its source text, a host object an identifier.
\<close>

datatype jsval =
    JUndefined
  | JNull
  | JBool bool
  | JNum int
  | JStr string
  | JArr "jsval list"
  | JObj "(string \<times> jsval) list"
  | JFun string
  | JFormData nat
  | JURLSearchParams "(string \<times> string) list"
  | JBlob nat
  | JArrayBuffer nat

text \<open>Truthiness, as \<open>if (v)\<close> and \<open>a || b\<close> read it.\<close>

fun truthy :: "jsval \<Rightarrow> bool" where
  "truthy JUndefined = False"
| "truthy JNull = False"
| "truthy (JBool b) = b"
| "truthy (JNum n) = (n \<noteq> 0)"
| "truthy (JStr s) = (s \<noteq> [])"
| "truthy _ = True"

text \<open>\<open>typeof v === 'object'\<close>: true of \<open>null\<close> and of arrays too.\<close>

fun typeof_object :: "jsval \<Rightarrow> bool" where
  "typeof_object JUndefined = False"
| "typeof_object (JBool b) = False"
| "typeof_object (JNum n) = False"
| "typeof_object (JStr s) = False"
| "typeof_object (JFun f) = False"
| "typeof_object _ = True"

fun is_array :: "jsval \<Rightarrow> bool" where
  "is_array (JArr xs) = True"
| "is_array _ = False"

text \<open>\<open>isObject\<close> of client-utils.ts.\<close>

definition isObject :: "jsval \<Rightarrow> bool" where
  "isObject v = (typeof_object v \<and> v \<noteq> JNull \<and> \<not> is_array v)"

subsection \<open>Characters and numerals\<close>

definition digit_char :: "nat \<Rightarrow> char" where
  "digit_char n = ''0123456789ABCDEF'' ! (n mod 16)"

fun show_nat :: "nat \<Rightarrow> string" where
  "show_nat n = (if n < 10 then [digit_char n] else show_nat (n div 10) @ [digit_char (n mod 10)])"

declare show_nat.simps [simp del]

definition show_int :: "int \<Rightarrow> string" where
  "show_int i = (if i < 0 then CHR ''-'' # show_nat (nat (- i)) else show_nat (nat i))"

definition percent :: "char \<Rightarrow> string" where
  "percent c = [CHR ''%'', digit_char (of_char c div 16), digit_char (of_char c mod 16)]"

definition alnum :: "char \<Rightarrow> bool" where
  "alnum c = (c \<in> set ''ABCDEFGHIJKLMNOPQRSTUVWXYZabcdefghijklmnopqrstuvwxyz0123456789'')"

text \<open>
  \<open>encodeURIComponent\<close>: letters, digits and \<open>- _ . ! ~ * ' ( )\<close> stay, every other
  byte of the UTF-8 encoding becomes \<open>%XX\<close>.
\<close>

definition uri_unreserved :: "char \<Rightarrow> bool" where
  "uri_unreserved c = (alnum c \<or> c \<in> set ''-_.!~*()'' \<or> c = CHR 0x27)"

definition encodeURIComponent :: "string \<Rightarrow> string" where
  "encodeURIComponent s = concat (map (\<lambda>c. if uri_unreserved c then [c] else percent c) s)"

text \<open>
  The serializer of \<open>URLSearchParams.toString()\<close> (application/x-www-form-urlencoded):
  letters, digits and \<open>* - . _\<close> stay, a space becomes \<open>+\<close>, every other byte \<open>%XX\<close>.
\<close>

definition form_encode :: "string \<Rightarrow> string" where
  "form_encode s = concat (map (\<lambda>c. if alnum c \<or> c \<in> set ''*-._'' then [c]
                                     else if c = CHR '' '' then ''+'' else percent c) s)"

fun join :: "string \<Rightarrow> string list \<Rightarrow> string" where
  "join sep [] = []"
| "join sep [x] = x"
| "join sep (x # y # ys) = x @ sep @ join sep (y # ys)"

definition search_toString :: "(string \<times> string) list \<Rightarrow> string" where
  "search_toString ps = join ''&'' (map (\<lambda>(k, v). form_encode k @ ''='' @ form_encode v) ps)"

text \<open>\<open>String(v)\<close>: an array joins its elements with commas, \<open>null\<close> and \<open>undefined\<close>
  elements as the empty string; a plain object is \<open>[object Object]\<close>.\<close>

fun js_String :: "jsval \<Rightarrow> string"
  and js_elems :: "jsval list \<Rightarrow> string list" where
  "js_String JUndefined = ''undefined''"
| "js_String JNull = ''null''"
| "js_String (JBool b) = (if b then ''true'' else ''false'')"
| "js_String (JNum n) = show_int n"
| "js_String (JStr s) = s"
| "js_String (JArr xs) = join '','' (js_elems xs)"
| "js_String (JObj kvs) = ''[object Object]''"
| "js_String (JFun src) = src"
| "js_String (JFormData n) = ''[object FormData]''"
| "js_String (JURLSearchParams ps) = search_toString ps"
| "js_String (JBlob n) = ''[object Blob]''"
| "js_String (JArrayBuffer n) = ''[object ArrayBuffer]''"
| "js_elems [] = []"
| "js_elems (x # xs) =
     (if x = JUndefined \<or> x = JNull then [] else js_String x) # js_elems xs"

text \<open>\<open>Object.entries(v)\<close> for a value that is neither \<open>null\<close> nor \<open>undefined\<close>.\<close>

definition index_keys :: "'a list \<Rightarrow> (string \<times> 'a) list" where
  "index_keys xs = zip (map show_nat [0..<length xs]) xs"

fun entries :: "jsval \<Rightarrow> (string \<times> jsval) list" where
  "entries (JObj kvs) = kvs"
| "entries (JArr xs) = index_keys xs"
| "entries (JStr s) = index_keys (map (\<lambda>c. JStr [c]) s)"
| "entries _ = []"

section \<open>Path, query and body utilities (client-utils.ts)\<close>

subsection \<open>mergePath\<close>

definition is_slash :: "char \<Rightarrow> bool" where
  "is_slash c = (c = CHR ''/'')"

text \<open>\<open>base.replace(/\/+$/, '')\<close> and \<open>path.replace(/^\/+/, '')\<close>.\<close>

definition strip_trailing_slashes :: "string \<Rightarrow> string" where
  "strip_trailing_slashes s = rev (dropWhile is_slash (rev s))"

definition strip_leading_slashes :: "string \<Rightarrow> string" where
  "strip_leading_slashes s = dropWhile is_slash s"

definition mergePath :: "string \<Rightarrow> string \<Rightarrow> string" where
  "mergePath base path = (strip_trailing_slashes base @ ''/'') @ strip_leading_slashes path"

subsection \<open>Property access and assignment\<close>

text \<open>\<open>obj[key]\<close> on a property list: \<open>undefined\<close> when the key is missing.\<close>

definition prop_get :: "(string \<times> jsval) list \<Rightarrow> string \<Rightarrow> jsval" where
  "prop_get kvs key = (case map_of kvs key of None \<Rightarrow> JUndefined | Some v \<Rightarrow> v)"

definition js_get :: "jsval \<Rightarrow> string \<Rightarrow> jsval" where
  "js_get v key = prop_get (entries v) key"

text \<open>Defining or updating a property: an existing key keeps its place, a new key goes
  last.\<close>

fun prop_set :: "(string \<times> 'a) list \<Rightarrow> string \<Rightarrow> 'a \<Rightarrow> (string \<times> 'a) list" where
  "prop_set [] key v = [(key, v)]"
| "prop_set ((k, w) # kvs) key v =
     (if k = key then (k, v) # kvs else (k, w) # prop_set kvs key v)"

text \<open>
  \<open>obj[key] = value\<close> on an ordinary object that is only written to, by its own
  properties. The name \<open>__proto__\<close>, unless the object has it as a property of its own,
  is the accessor of the prototype: the assignment changes the prototype at most and
  adds no property.
\<close>

definition assign :: "(string \<times> 'a) list \<Rightarrow> string \<Rightarrow> 'a \<Rightarrow> (string \<times> 'a) list" where
  "assign obj key v =
     (if key = ''__proto__'' \<and> map_of obj key = None then obj else prop_set obj key v)"

subsection \<open>replaceUrlParams\<close>

text \<open>
  The lookahead \<open>(?=\/|$|\?|#)\<close> of the pattern: what follows the match is the end of
  the string or starts with \<open>/\<close>, \<open>?\<close> or \<open>#\<close>.
\<close>

definition boundary :: "string \<Rightarrow> bool" where
  "boundary rest = (case rest of [] \<Rightarrow> True
                    | c # _ \<Rightarrow> c = CHR ''/'' \<or> c = CHR ''?'' \<or> c = CHR ''#'')"

text \<open>
  \<open>result.replace(new RegExp(`:${key}(?=\/|$|\\?|#)`, 'g'), rep)\<close>: the scan goes left to
  right and resumes after each match. The key is spliced into the pattern as it is, so
  this is the code for a key whose characters all stand for themselves in a pattern
  (\<open>literal_key\<close>); the replacement is an \<open>encodeURIComponent\<close> result, which holds no
  \<open>$\<close>.
\<close>

definition literal_key :: "string \<Rightarrow> bool" where
  "literal_key key = list_all (\<lambda>c. c \<notin> set ''^$.*+?()[]{}|'' \<and> c \<noteq> CHR 0x5C) key"

function replace_param :: "string \<Rightarrow> string \<Rightarrow> string \<Rightarrow> string" where
  "replace_param key rep [] = []"
| "replace_param key rep (c # cs) =
     (if c = CHR '':'' \<and> take (length key) cs = key \<and> boundary (drop (length key) cs)
      then rep @ replace_param key rep (drop (length key) cs)
      else c # replace_param key rep cs)"
  by pat_completeness auto
termination
  by (relation "measure (\<lambda>(key, rep, s). length s)") auto

definition replaceUrlParams :: "string \<Rightarrow> jsval \<Rightarrow> string" where
  "replaceUrlParams urlString params =
     fold (\<lambda>(key, v) result.
             if v \<noteq> JUndefined
             then replace_param key (encodeURIComponent (js_String v)) result
             else result)
          (entries params) urlString"

subsection \<open>buildSearchParams\<close>

text \<open>\<open>URLSearchParams.append\<close> and \<open>URLSearchParams.set\<close> on the list of pairs.\<close>

definition search_append :: "(string \<times> string) list \<Rightarrow> string \<Rightarrow> string \<Rightarrow> (string \<times> string) list" where
  "search_append sp name v = sp @ [(name, v)]"

fun search_set :: "(string \<times> string) list \<Rightarrow> string \<Rightarrow> string \<Rightarrow> (string \<times> string) list" where
  "search_set [] name v = [(name, v)]"
| "search_set ((n, w) # sp) name v =
     (if n = name then (n, v) # filter (\<lambda>p. fst p \<noteq> name) sp
      else (n, w) # search_set sp name v)"

definition append_items :: "string \<Rightarrow> jsval list \<Rightarrow> (string \<times> string) list \<Rightarrow> (string \<times> string) list" where
  "append_items key items sp =
     fold (\<lambda>item sp'. if item \<noteq> JUndefined \<and> item \<noteq> JNull
                        then search_append sp' key (js_String item) else sp')
          items sp"

definition buildSearchParams :: "jsval \<Rightarrow> (string \<times> string) list" where
  "buildSearchParams query =
     fold (\<lambda>(key, v) searchParams.
             if v = JUndefined \<or> v = JNull then searchParams
             else (case v of
                     JArr items \<Rightarrow> append_items key items searchParams
                   | _ \<Rightarrow> search_set searchParams key (js_String v)))
          (entries query) []"

subsection \<open>getContentType and serializeBody\<close>

text \<open>
  \<open>JSON.stringify\<close> on the values above; \<open>None\<close> is its \<open>undefined\<close> result. In an
  array \<open>undefined\<close> and functions print as \<open>null\<close>, in an object their properties are
  left out; a host object has no enumerable property of its own.
\<close>

definition json_escape :: "char \<Rightarrow> string" where
  "json_escape c =
     (if c = CHR 0x22 then [CHR 0x5C, CHR 0x22]
      else if c = CHR 0x5C then [CHR 0x5C, CHR 0x5C]
      else if c = CHR 0x08 then [CHR 0x5C, CHR ''b'']
      else if c = CHR 0x09 then [CHR 0x5C, CHR ''t'']
      else if c = CHR 0x0A then [CHR 0x5C, CHR ''n'']
      else if c = CHR 0x0C then [CHR 0x5C, CHR ''f'']
      else if c = CHR 0x0D then [CHR 0x5C, CHR ''r'']
      else if (of_char c :: nat) < 32
        then [CHR 0x5C, CHR ''u'', CHR ''0'', CHR ''0'',
              ''0123456789abcdef'' ! (of_char c div 16), ''0123456789abcdef'' ! (of_char c mod 16)]
      else [c])"

definition json_quote :: "string \<Rightarrow> string" where
  "json_quote s = CHR 0x22 # concat (map json_escape s) @ [CHR 0x22]"

fun JSON_stringify :: "jsval \<Rightarrow> string option"
  and json_items :: "jsval list \<Rightarrow> string list"
  and json_props :: "(string \<times> jsval) list \<Rightarrow> string list" where
  "JSON_stringify JUndefined = None"
| "JSON_stringify (JFun f) = None"
| "JSON_stringify JNull = Some ''null''"
| "JSON_stringify (JBool b) = Some (if b then ''true'' else ''false'')"
| "JSON_stringify (JNum n) = Some (show_int n)"
| "JSON_stringify (JStr s) = Some (json_quote s)"
| "JSON_stringify (JArr xs) = Some (''['' @ join '','' (json_items xs) @ '']'')"
| "JSON_stringify (JObj kvs) = Some (''{'' @ join '','' (json_props kvs) @ ''}'')"
| "JSON_stringify (JFormData n) = Some ''{}''"
| "JSON_stringify (JURLSearchParams ps) = Some ''{}''"
| "JSON_stringify (JBlob n) = Some ''{}''"
| "JSON_stringify (JArrayBuffer n) = Some ''{}''"
| "json_items [] = []"
| "json_items (x # xs) =
     (case JSON_stringify x of None \<Rightarrow> ''null'' | Some s \<Rightarrow> s) # json_items xs"
| "json_props [] = []"
| "json_props ((k, v) # kvs) =
     (case JSON_stringify v of
        None \<Rightarrow> json_props kvs
      | Some s \<Rightarrow> (json_quote k @ '':'' @ s) # json_props kvs)"

fun is_string :: "jsval \<Rightarrow> bool" where
  "is_string (JStr s) = True"
| "is_string _ = False"

fun is_FormData :: "jsval \<Rightarrow> bool" where
  "is_FormData (JFormData n) = True"
| "is_FormData _ = False"

fun is_URLSearchParams :: "jsval \<Rightarrow> bool" where
  "is_URLSearchParams (JURLSearchParams ps) = True"
| "is_URLSearchParams _ = False"

fun is_Blob :: "jsval \<Rightarrow> bool" where
  "is_Blob (JBlob n) = True"
| "is_Blob _ = False"

fun is_ArrayBuffer :: "jsval \<Rightarrow> bool" where
  "is_ArrayBuffer (JArrayBuffer n) = True"
| "is_ArrayBuffer _ = False"

text \<open>
  \<open>getContentType\<close>; \<open>None\<close> is \<open>undefined\<close>. Whether \<open>JSON.parse\<close> accepts a string is
  the platform's answer, the parameter \<open>parses\<close>.
\<close>

definition getContentType :: "(string \<Rightarrow> bool) \<Rightarrow> jsval \<Rightarrow> string option" where
  "getContentType parses body =
     (if is_string body
      then (if parses (js_String body) then Some ''application/json'' else Some ''text/plain'')
      else if is_FormData body then None
      else if is_URLSearchParams body then Some ''application/x-www-form-urlencoded''
      else if isObject body then Some ''application/json''
      else None)"

text \<open>\<open>serializeBody\<close>; the result is a \<open>BodyInit\<close> value or \<open>undefined\<close>.\<close>

definition serializeBody :: "jsval \<Rightarrow> jsval" where
  "serializeBody body =
     (if body = JUndefined \<or> body = JNull then JUndefined
      else if is_string body \<or> is_FormData body \<or> is_URLSearchParams body
              \<or> is_Blob body \<or> is_ArrayBuffer body then body
      else if isObject body \<or> is_array body
        then (case JSON_stringify body of None \<Rightarrow> JUndefined | Some s \<Rightarrow> JStr s)
      else JStr (js_String body))"

subsection \<open>deepMerge\<close>

text \<open>
  \<open>deepMerge(target, source)\<close> on values: the spread \<open>{ ...target }\<close> copies the
  properties of the target into a new object, \<open>for (const key in source)\<close> walks those
  of the source. The new object is its own properties and its prototype, at first
  \<open>Object.prototype\<close>, which has no enumerable property and stands here as the empty
  object. Reading \<open>merged[key]\<close> finds an own property first, the prototype itself
  under \<open>__proto__\<close>, and a property of the prototype otherwise; writing
  \<open>merged[key] = value\<close> under \<open>__proto__\<close>, when that is no own property, replaces the
  prototype by an object, a function or \<open>null\<close> and does nothing for any other value.
  The result is read by its own properties.
\<close>

fun is_function :: "jsval \<Rightarrow> bool" where
  "is_function (JFun f) = True"
| "is_function _ = False"

definition read_prop :: "(string \<times> jsval) list \<times> jsval \<Rightarrow> string \<Rightarrow> jsval" where
  "read_prop m key =
     (case map_of (fst m) key of
        Some v \<Rightarrow> v
      | None \<Rightarrow> if key = ''__proto__'' then snd m else js_get (snd m) key)"

definition write_prop ::
  "(string \<times> jsval) list \<times> jsval \<Rightarrow> string \<Rightarrow> jsval \<Rightarrow> (string \<times> jsval) list \<times> jsval" where
  "write_prop m key v =
     (if key = ''__proto__'' \<and> map_of (fst m) key = None
      then (fst m, if typeof_object v \<or> is_function v then v else snd m)
      else (prop_set (fst m) key v, snd m))"

lemma entries_size:
  "(key, v) \<in> set (entries source) \<Longrightarrow> isObject v \<Longrightarrow> size v < size source"
proof (cases source)
  case (JObj kvs)
  assume "(key, v) \<in> set (entries source)"
  then have "(key, v) \<in> set kvs"
    using JObj by simp
  then have "size v < Suc (size_list (size_prod (\<lambda>_. 0) size) kvs)"
    by (induction kvs) auto
  then show ?thesis
    using JObj by simp
next
  case (JArr xs)
  assume "(key, v) \<in> set (entries source)"
  then have "v \<in> set xs"
    using JArr by (auto simp: index_keys_def dest: set_zip_rightD)
  then have "size v < Suc (size_list size xs)"
    by (induction xs) auto
  then show ?thesis
    using JArr by simp
next
  case (JStr s)
  assume "(key, v) \<in> set (entries source)" and "isObject v"
  then show ?thesis
    using JStr by (auto simp: index_keys_def isObject_def dest!: set_zip_rightD)
qed (auto)

function deepMerge :: "jsval \<Rightarrow> jsval \<Rightarrow> jsval" where
  "deepMerge target source =
     (if \<not> isObject target \<and> \<not> isObject source then source
      else JObj (fst (fold (\<lambda>(key, v) merged.
                         if isObject (read_prop merged key) \<and> isObject v
                         then write_prop merged key (deepMerge (read_prop merged key) v)
                         else write_prop merged key v)
                      (entries source) (entries target, JObj []))))"
  by pat_completeness auto
termination
  by (relation "measure (\<lambda>(target, source). size source)") (auto dest: entries_size)

declare deepMerge.simps [simp del]

section \<open>Schema validators (libs/parser.ts)\<close>

text \<open>
  A thrown value or a rejected promise is an \<open>error\<close>; awaiting is sequencing, so a
  function that may throw or return a promise returns \<open>error + 'a\<close>.
  \<open>StandardSchemaV1Error\<close> carries the issues it was built from, \<open>NoParserError\<close> is
  \<open>Error("Could not find a compatible parser method")\<close>, \<open>Thrown\<close> is whatever a
  validator, a header producer, the transport or \<open>json()\<close> threw, and \<open>TypeError\<close> is
  the platform's, as \<open>Response.clone()\<close> throws it.
\<close>

datatype error =
    Thrown jsval
  | StandardSchemaV1Error "jsval list"
  | NoParserError
  | TypeError

type_synonym 'a result = "error + 'a"

definition bind_result :: "'a result \<Rightarrow> ('a \<Rightarrow> 'b result) \<Rightarrow> 'b result" where
  "bind_result r f = (case r of Inl e \<Rightarrow> Inl e | Inr v \<Rightarrow> f v)"

type_synonym ParseFn = "jsval \<Rightarrow> jsval result"

text \<open>The result of \<open>~standard.validate\<close>: \<open>issues\<close> is \<open>None\<close> when the property is
  \<open>undefined\<close>; an array, also the empty one, is a truthy value.\<close>

record validate_result =
  issues :: "jsval list option"
  result_value :: jsval

text \<open>
  What \<open>createParseFn\<close> asks of a validator: whether the value itself is a function
  (\<open>callable\<close>), which of the method names it has as functions, and whether it has a
  \<open>~standard\<close> property (\<open>standard\<close>, with its \<open>validate\<close>).
\<close>

record validator =
  callable :: "ParseFn option"
  assert :: "ParseFn option"
  parseAsync :: "ParseFn option"
  parse :: "ParseFn option"
  validateSync :: "ParseFn option"
  create :: "ParseFn option"
  standard :: "(jsval \<Rightarrow> validate_result result) option"

text \<open>\<open>SchemaValidator\<close>: a validator, or \<open>null\<close> (\<open>None\<close>) for no validation.\<close>

type_synonym SchemaValidator = "validator option"

definition createParseFn :: "SchemaValidator \<Rightarrow> ParseFn result" where
  "createParseFn schema =
     (case schema of
        None \<Rightarrow> Inr (\<lambda>v. Inr v)
      | Some parser \<Rightarrow>
     (case (callable parser, assert parser) of
        (Some f, Some a) \<Rightarrow> Inr a
      | _ \<Rightarrow>
     (case (callable parser, standard parser) of
        (Some f, None) \<Rightarrow> Inr f
      | _ \<Rightarrow>
     (case parseAsync parser of Some f \<Rightarrow> Inr f | None \<Rightarrow>
     (case parse parser of Some f \<Rightarrow> Inr f | None \<Rightarrow>
     (case validateSync parser of Some f \<Rightarrow> Inr f | None \<Rightarrow>
     (case create parser of Some f \<Rightarrow> Inr f | None \<Rightarrow>
     (case assert parser of
        Some a \<Rightarrow> Inr (\<lambda>v. bind_result (a v) (\<lambda>_. Inr v))
      | None \<Rightarrow>
     (case standard parser of
        Some validate \<Rightarrow>
          Inr (\<lambda>v. bind_result (validate v) (\<lambda>result.
                 case issues result of
                   Some is \<Rightarrow> Inl (StandardSchemaV1Error is)
                 | None \<Rightarrow> Inr (result_value result)))
      | None \<Rightarrow> Inl NoParserError)))))))))"

section \<open>The client (client.ts)\<close>

subsection \<open>Route definitions, options, requests and responses\<close>

text \<open>The four slots of a request: of the route's validators, of the call's arguments
  and of the processed arguments.\<close>

record 'a slots =
  params :: 'a
  query :: 'a
  body :: 'a
  headers :: 'a

text \<open>A response definition is a description string or an object with an optional
  schema; an optional property is \<open>None\<close> when it is missing or \<open>undefined\<close>.\<close>

datatype HttpResponseDefinition =
    DescriptionOnly string
  | ResponseDefinition string "SchemaValidator option"

record HttpRouteDefinition =
  path :: string
  route_method :: string
  request :: "SchemaValidator option slots option"
  responses :: "(nat \<times> HttpResponseDefinition) list"

text \<open>
  A response of the transport: its status, whether its body was read already or is
  locked (\<open>clone()\<close> throws a \<open>TypeError\<close> then), and what \<open>json()\<close> on a clone of it
  settles to.
\<close>

record Response =
  status :: nat
  bodyUsed :: bool
  json :: "jsval result"

text \<open>
  The \<open>Headers\<close> collection: names compare without case, \<open>set\<close> replaces. Which names
  and values the platform's \<open>Headers\<close> refuses is not part of the model.
\<close>

text \<open>\<open>toLowerCase\<close> and \<open>toUpperCase\<close> on the ASCII letters, which are all that method
  names and header names hold.\<close>

definition toLowerCase :: "string \<Rightarrow> string" where
  "toLowerCase s =
     map (\<lambda>c. case map_of (zip ''ABCDEFGHIJKLMNOPQRSTUVWXYZ'' ''abcdefghijklmnopqrstuvwxyz'') c of
                Some l \<Rightarrow> l | None \<Rightarrow> c) s"

definition toUpperCase :: "string \<Rightarrow> string" where
  "toUpperCase s =
     map (\<lambda>c. case map_of (zip ''abcdefghijklmnopqrstuvwxyz'' ''ABCDEFGHIJKLMNOPQRSTUVWXYZ'') c of
                Some u \<Rightarrow> u | None \<Rightarrow> c) s"

type_synonym Headers = "(string \<times> string) list"

definition headers_set :: "Headers \<Rightarrow> string \<Rightarrow> string \<Rightarrow> Headers" where
  "headers_set h name v = prop_set h (toLowerCase name) v"

definition headers_has :: "Headers \<Rightarrow> string \<Rightarrow> bool" where
  "headers_has h name = (map_of h (toLowerCase name) \<noteq> None)"

definition headers_get :: "Headers \<Rightarrow> string \<Rightarrow> string option" where
  "headers_get h name = map_of h (toLowerCase name)"

text \<open>The request descriptor handed to the transport: an object literal whose
  \<open>headers\<close> property is the \<open>Headers\<close> collection unless the spread of \<open>init\<close> replaces it.\<close>

datatype init_value = Plain jsval | HeadersObject Headers

type_synonym RequestInit = "(string \<times> init_value) list"

type_synonym fetch_fn = "string \<Rightarrow> RequestInit \<Rightarrow> Response result"

text \<open>
  \<open>ClientRequestOptions\<close>. A property of an options object is missing, present with
  the value \<open>undefined\<close>, or present with a value: \<open>deepMerge\<close> tells the first two apart.
  Configured headers are a static map or a producer, here what calling and awaiting it
  settles to.
\<close>

datatype 'a property = Missing | Undefined | Value 'a

datatype headers_option =
    StaticHeaders "(string \<times> string) list"
  | HeadersProducer "(string \<times> string) list result"

record ClientRequestOptions =
  opt_fetch :: "fetch_fn property"
  opt_headers :: "headers_option property"
  opt_init :: "jsval property"

text \<open>
  \<open>deepMerge\<close> on two options objects, property by property: a property the source
  does not have stays, one it has replaces the target's, unless both values are
  objects (\<open>isObject\<close>), which are merged in turn. Functions are not objects.
\<close>

definition merge_property ::
  "('a \<Rightarrow> bool) \<Rightarrow> ('a \<Rightarrow> 'a \<Rightarrow> 'a) \<Rightarrow> 'a property \<Rightarrow> 'a property \<Rightarrow> 'a property" where
  "merge_property is_obj merge t s =
     (case s of
        Missing \<Rightarrow> t
      | Undefined \<Rightarrow> Undefined
      | Value sv \<Rightarrow>
          (case t of
             Value tv \<Rightarrow> if is_obj tv \<and> is_obj sv then Value (merge tv sv) else Value sv
           | _ \<Rightarrow> Value sv))"

fun is_static :: "headers_option \<Rightarrow> bool" where
  "is_static (StaticHeaders hs) = True"
| "is_static (HeadersProducer p) = False"

fun merge_headers :: "headers_option \<Rightarrow> headers_option \<Rightarrow> headers_option" where
  "merge_headers (StaticHeaders t) (StaticHeaders s) =
     StaticHeaders (fold (\<lambda>(key, v) merged. assign merged key v) s t)"
| "merge_headers t s = s"

definition deepMerge_options :: "ClientRequestOptions \<Rightarrow> ClientRequestOptions \<Rightarrow> ClientRequestOptions" where
  "deepMerge_options target source =
     \<lparr> opt_fetch = merge_property (\<lambda>f. False) (\<lambda>t s. s) (opt_fetch target) (opt_fetch source),
       opt_headers = merge_property is_static merge_headers (opt_headers target) (opt_headers source),
       opt_init = merge_property isObject deepMerge (opt_init target) (opt_init source) \<rparr>"

subsection \<open>HttpClientRequest\<close>

record HttpClientRequest =
  url :: string
  http_method :: string
  route :: HttpRouteDefinition
  baseOptions :: ClientRequestOptions

definition new_HttpClientRequest ::
  "string \<Rightarrow> HttpRouteDefinition \<Rightarrow> ClientRequestOptions \<Rightarrow> HttpClientRequest" where
  "new_HttpClientRequest baseUrl r opts =
     \<lparr> url = mergePath baseUrl (path r),
       http_method = toUpperCase (route_method r),
       route = r,
       baseOptions = opts \<rparr>"

text \<open>What the run of a call leaves behind besides its result: the requests handed
  to the transport and the warnings written to the console.\<close>

datatype event = Dispatched string RequestInit | Warned error

text \<open>
  \<open>validateRequest\<close>, one slot: \<open>this.route.request?.slot\<close> is truthy when the route has
  a validator there (\<open>null\<close> and a missing property are not); the argument is
  \<open>JUndefined\<close> when the caller did not supply it. The result is the property of
  \<open>processedArgs\<close>, \<open>None\<close> when it is not assigned.
\<close>

definition declared :: "HttpRouteDefinition \<Rightarrow> (SchemaValidator option slots \<Rightarrow> SchemaValidator option) \<Rightarrow> validator option" where
  "declared r slot =
     (case request r of
        None \<Rightarrow> None
      | Some req \<Rightarrow> (case slot req of Some (Some v) \<Rightarrow> Some v | _ \<Rightarrow> None))"

definition validateSlot :: "validator option \<Rightarrow> jsval \<Rightarrow> jsval option result" where
  "validateSlot schema arg =
     (case schema of
        Some v \<Rightarrow>
          (if arg \<noteq> JUndefined
           then bind_result (createParseFn (Some v)) (\<lambda>validator.
                bind_result (validator arg) (\<lambda>r. Inr (Some r)))
           else if truthy arg then Inr (Some arg) else Inr None)
      | None \<Rightarrow> if truthy arg then Inr (Some arg) else Inr None)"

definition validateRequest :: "HttpClientRequest \<Rightarrow> jsval slots \<Rightarrow> jsval option slots result" where
  "validateRequest this args =
     bind_result (validateSlot (declared (route this) params) (params args)) (\<lambda>p.
     bind_result (validateSlot (declared (route this) query) (query args)) (\<lambda>q.
     bind_result (validateSlot (declared (route this) body) (body args)) (\<lambda>b.
     bind_result (validateSlot (declared (route this) headers) (headers args)) (\<lambda>h.
     Inr \<lparr> params = p, query = q, body = b, headers = h \<rparr>))))"

text \<open>Reading a property of \<open>processedArgs\<close>: \<open>undefined\<close> when it was not assigned.\<close>

definition processed :: "jsval option \<Rightarrow> jsval" where
  "processed p = (case p of None \<Rightarrow> JUndefined | Some v \<Rightarrow> v)"

text \<open>
  \<open>validateResponse\<close>. When the response definition of the status has a schema, the
  response is cloned first, outside the \<open>try\<close>: a \<open>clone()\<close> that throws rejects the
  call. A failure of \<open>json()\<close>, of \<open>createParseFn\<close> or of the validator is caught and
  written as a warning, and the response comes back as it is.
\<close>

definition validateResponse ::
  "HttpClientRequest \<Rightarrow> Response \<Rightarrow> Response result \<times> event list" where
  "validateResponse this response =
     (case map_of (responses (route this)) (status response) of
        Some (ResponseDefinition description (Some (Some schema))) \<Rightarrow>
          if bodyUsed response then (Inl TypeError, [])
          else (case bind_result (json response) (\<lambda>responseData.
                     bind_result (createParseFn (Some schema)) (\<lambda>validator.
                     validator responseData)) of
                  Inl error \<Rightarrow> (Inr response, [Warned error])
                | Inr _ \<Rightarrow> (Inr response, []))
      | _ \<Rightarrow> (Inr response, []))"

text \<open>The steps of \<open>execute\<close> between validation and dispatch.\<close>

definition withParams :: "string \<Rightarrow> jsval \<Rightarrow> string" where
  "withParams finalUrl p = (if truthy p then replaceUrlParams finalUrl p else finalUrl)"

definition withQuery :: "string \<Rightarrow> jsval \<Rightarrow> string" where
  "withQuery finalUrl q =
     (if truthy q
      then (let searchParams = buildSearchParams q in
            if search_toString searchParams \<noteq> []
            then finalUrl @ (if CHR ''?'' \<in> set finalUrl then ''&'' else ''?'')
                          @ search_toString searchParams
            else finalUrl)
      else finalUrl)"

definition requestHeaders :: "jsval \<Rightarrow> Headers" where
  "requestHeaders h =
     (if truthy h
      then fold (\<lambda>(key, v) hs. headers_set hs key (js_String v)) (entries h) []
      else [])"

text \<open>\<open>typeof mergedOptions.headers === 'function' ? await mergedOptions.headers()
  : mergedOptions.headers\<close>; \<open>None\<close> is \<open>undefined\<close>.\<close>

definition optionsHeaders :: "ClientRequestOptions \<Rightarrow> (string \<times> string) list option result" where
  "optionsHeaders mergedOptions =
     (case opt_headers mergedOptions of
        Value (HeadersProducer produced) \<Rightarrow> bind_result produced (\<lambda>hs. Inr (Some hs))
      | Value (StaticHeaders hs) \<Rightarrow> Inr (Some hs)
      | _ \<Rightarrow> Inr None)"

definition withOptionsHeaders :: "Headers \<Rightarrow> (string \<times> string) list option \<Rightarrow> Headers" where
  "withOptionsHeaders hs oh =
     (case oh of
        None \<Rightarrow> hs
      | Some kvs \<Rightarrow> fold (\<lambda>(key, v) hs'. headers_set hs' key v) kvs hs)"

definition prepareBody :: "(string \<Rightarrow> bool) \<Rightarrow> string \<Rightarrow> jsval \<Rightarrow> Headers \<Rightarrow> jsval \<times> Headers" where
  "prepareBody parses meth b hs =
     (let shouldHaveBody = (meth \<notin> set [''GET'', ''HEAD'']) in
      if shouldHaveBody \<and> b \<noteq> JUndefined
      then (serializeBody b,
            if \<not> headers_has hs ''Content-Type''
            then (case getContentType parses b of
                    Some contentType \<Rightarrow> headers_set hs ''Content-Type'' contentType
                  | None \<Rightarrow> hs)
            else hs)
      else (JUndefined, hs))"

text \<open>\<open>{ method, headers, body, ...mergedOptions.init }\<close>.\<close>

definition requestInit :: "string \<Rightarrow> Headers \<Rightarrow> jsval \<Rightarrow> jsval property \<Rightarrow> RequestInit" where
  "requestInit meth hs b init =
     fold (\<lambda>(key, v) obj. prop_set obj key (Plain v))
          (case init of Value i \<Rightarrow> entries i | _ \<Rightarrow> [])
          [(''method'', Plain (JStr meth)), (''headers'', HeadersObject hs), (''body'', Plain b)]"

text \<open>The platform around a call: the ambient \<open>fetch\<close> and whether \<open>JSON.parse\<close>
  accepts a string.\<close>

record platform =
  global_fetch :: fetch_fn
  JSON_parses :: "string \<Rightarrow> bool"

definition execute ::
  "platform \<Rightarrow> HttpClientRequest \<Rightarrow> jsval slots \<Rightarrow> ClientRequestOptions
     \<Rightarrow> Response result \<times> event list" where
  "execute env this args options =
     (let mergedOptions = deepMerge_options (baseOptions this) options in
      case validateRequest this args of
        Inl e \<Rightarrow> (Inl e, [])
      | Inr processedArgs \<Rightarrow>
          (let finalUrl = withParams (url this) (processed (params processedArgs));
               finalUrl = withQuery finalUrl (processed (query processedArgs));
               hs = requestHeaders (processed (headers processedArgs))
           in case optionsHeaders mergedOptions of
                Inl e \<Rightarrow> (Inl e, [])
              | Inr oh \<Rightarrow>
                  (let hs = withOptionsHeaders hs oh;
                       (b, hs) = prepareBody (JSON_parses env) (http_method this)
                                   (processed (body processedArgs)) hs;
                       fetchFn = (case opt_fetch mergedOptions of
                                    Value f \<Rightarrow> f | _ \<Rightarrow> global_fetch env);
                       init = requestInit (http_method this) hs b (opt_init mergedOptions)
                   in case fetchFn finalUrl init of
                        Inl e \<Rightarrow> (Inl e, [Dispatched finalUrl init])
                      | Inr response \<Rightarrow>
                          (let (validatedResponse, warnings) = validateResponse this response
                           in (validatedResponse, Dispatched finalUrl init # warnings)))))"

subsection \<open>The client tree\<close>

text \<open>
  A node of the built client: an endpoint closed over the base URL, the route value and
  the base options, or a nested client, by its own properties.
\<close>

datatype client = Endpoint string jsval ClientRequestOptions | Client "(string \<times> client) list"

definition isRouteDefinition :: "jsval \<Rightarrow> bool" where
  "isRouteDefinition v =
     (isObject v \<and> is_string (js_get v ''path'') \<and> is_string (js_get v ''method'')
      \<and> typeof_object (js_get v ''responses''))"

function createClientFromRouteMap ::
  "jsval \<Rightarrow> string \<Rightarrow> ClientRequestOptions \<Rightarrow> (string \<times> client) list" where
  "createClientFromRouteMap routeMap baseUrl opts =
     fold (\<lambda>(key, v) client.
             if isRouteDefinition v then assign client key (Endpoint baseUrl v opts)
             else if isObject v
               then assign client key (Client (createClientFromRouteMap v baseUrl opts))
             else client)
          (entries routeMap) []"
  by pat_completeness auto
termination
  by (relation "measure (\<lambda>(routeMap, baseUrl, opts). size routeMap)") (auto dest: entries_size)

declare createClientFromRouteMap.simps [simp del]

subsection \<open>Notions the properties are stated with\<close>

text \<open>
  The error, if any, that validating one slot throws: the slot has a validator, the
  caller supplied the argument, and \<open>createParseFn\<close> or the parse function it returns
  fails on it.
\<close>

definition slot_error :: "validator option \<Rightarrow> jsval \<Rightarrow> error option" where
  "slot_error schema arg =
     (case schema of
        None \<Rightarrow> None
      | Some v \<Rightarrow>
          if arg = JUndefined then None
          else (case createParseFn (Some v) of
                  Inl e \<Rightarrow> Some e
                | Inr parseFn \<Rightarrow> (case parseFn arg of Inl e \<Rightarrow> Some e | Inr r \<Rightarrow> None)))"

text \<open>The four slots in the order \<open>validateRequest\<close> visits them.\<close>

definition slot_errors :: "HttpClientRequest \<Rightarrow> jsval slots \<Rightarrow> error option list" where
  "slot_errors this args =
     [slot_error (declared (route this) params) (params args),
      slot_error (declared (route this) query) (query args),
      slot_error (declared (route this) body) (body args),
      slot_error (declared (route this) headers) (headers args)]"

text \<open>The transport a call uses: \<open>mergedOptions.fetch || fetch\<close>.\<close>

definition fetchFn :: "platform \<Rightarrow> HttpClientRequest \<Rightarrow> ClientRequestOptions \<Rightarrow> fetch_fn" where
  "fetchFn env this options =
     (case opt_fetch (deepMerge_options (baseOptions this) options) of
        Value f \<Rightarrow> f
      | _ \<Rightarrow> global_fetch env)"

text \<open>The URL, the header collection before the body step, and the request descriptor
  that \<open>execute\<close> computes from the processed arguments and the options headers.\<close>

definition dispatchUrl :: "HttpClientRequest \<Rightarrow> jsval option slots \<Rightarrow> string" where
  "dispatchUrl this pa =
     withQuery (withParams (url this) (processed (params pa))) (processed (query pa))"

definition assembledHeaders :: "jsval option slots \<Rightarrow> (string \<times> string) list option \<Rightarrow> Headers" where
  "assembledHeaders pa oh = withOptionsHeaders (requestHeaders (processed (headers pa))) oh"

definition dispatchInit ::
  "platform \<Rightarrow> HttpClientRequest \<Rightarrow> ClientRequestOptions \<Rightarrow> jsval option slots
     \<Rightarrow> (string \<times> string) list option \<Rightarrow> RequestInit" where
  "dispatchInit env this options pa oh =
     (let (b, hs) = prepareBody (JSON_parses env) (http_method this) (processed (body pa))
                      (assembledHeaders pa oh)
      in requestInit (http_method this) hs b
           (opt_init (deepMerge_options (baseOptions this) options)))"

subsection \<open>Example values\<close>

definition no_options :: ClientRequestOptions where
  "no_options = \<lparr> opt_fetch = Missing, opt_headers = Missing, opt_init = Missing \<rparr>"

definition no_args :: "jsval slots" where
  "no_args = \<lparr> params = JUndefined, query = JUndefined, body = JUndefined, headers = JUndefined \<rparr>"

text \<open>A validator that has nothing but a \<open>~standard\<close> property.\<close>

definition standard_only :: "(jsval \<Rightarrow> validate_result result) \<Rightarrow> validator" where
  "standard_only validate =
     \<lparr> callable = None, assert = None, parseAsync = None, parse = None,
       validateSync = None, create = None, standard = Some validate \<rparr>"

text \<open>A custom validation function that throws on every input.\<close>

definition rejecting :: validator where
  "rejecting = \<lparr> callable = Some (\<lambda>v. Inl (Thrown (JStr ''invalid''))), assert = None,
       parseAsync = None, parse = None, validateSync = None, create = None, standard = None \<rparr>"

definition post_route :: HttpRouteDefinition where
  "post_route = \<lparr> path = ''/users'', route_method = ''post'',
       request = Some \<lparr> params = None, query = None, body = Some (Some rejecting), headers = None \<rparr>,
       responses = [(200, ResponseDefinition ''ok'' (Some (Some rejecting)))] \<rparr>"

definition json_route :: HttpRouteDefinition where
  "json_route = \<lparr> path = ''/users'', route_method = ''get'', request = None,
       responses = [(200, ResponseDefinition ''ok'' (Some (Some rejecting)))] \<rparr>"

text \<open>Transports: one that answers 200 with an empty object, one whose response body is
  not JSON, and one that has read the body of its response before it hands it over.\<close>

definition always_ok :: fetch_fn where
  "always_ok u i = Inr \<lparr> status = 200, bodyUsed = False, json = Inr (JObj []) \<rparr>"

definition broken_json :: fetch_fn where
  "broken_json u i =
     Inr \<lparr> status = 200, bodyUsed = False, json = Inl (Thrown (JStr ''SyntaxError'')) \<rparr>"

definition body_read :: fetch_fn where
  "body_read u i = Inr \<lparr> status = 200, bodyUsed = True, json = Inr (JObj []) \<rparr>"

definition test_platform :: platform where
  "test_platform = \<lparr> global_fetch = always_ok, JSON_parses = (\<lambda>s. False) \<rparr>"

text \<open>
  The pairs one entry of a query gives: none for \<open>undefined\<close> and \<open>null\<close>, one per
  element that is neither \<open>undefined\<close> nor \<open>null\<close> for an array, in the array's order,
  and one for any other value, each value through \<open>String\<close>.
\<close>

definition query_pairs :: "string \<times> jsval \<Rightarrow> (string \<times> string) list" where
  "query_pairs kv =
     (case kv of (key, v) \<Rightarrow>
        if v = JUndefined \<or> v = JNull then []
        else (case v of
                JArr items \<Rightarrow>
                  map (\<lambda>item. (key, js_String item))
                      (filter (\<lambda>item. item \<noteq> JUndefined \<and> item \<noteq> JNull) items)
              | _ \<Rightarrow> [(key, js_String v)]))"

text \<open>The value a list of configured headers gives a name: that of the last entry whose
  name is the same without case.\<close>

definition header_value :: "(string \<times> string) list \<Rightarrow> string \<Rightarrow> string option" where
  "header_value kvs name = map_of (rev (map (\<lambda>(k, v). (toLowerCase k, v)) kvs)) (toLowerCase name)"

text \<open>The header collection of a request descriptor, and the property names of the
  \<open>init\<close> options that the descriptor spreads.\<close>

definition dispatched_headers :: "RequestInit \<Rightarrow> Headers option" where
  "dispatched_headers init =
     (case map_of init ''headers'' of Some (HeadersObject hs) \<Rightarrow> Some hs | _ \<Rightarrow> None)"

definition init_keys :: "jsval property \<Rightarrow> string set" where
  "init_keys p = (case p of Value i \<Rightarrow> fst ` set (entries i) | _ \<Rightarrow> {})"

definition echo_route :: HttpRouteDefinition where
  "echo_route = \<lparr> path = ''/test'', route_method = ''get'', request = None, responses = [] \<rparr>"

definition upload_route :: HttpRouteDefinition where
  "upload_route = \<lparr> path = ''/items'', route_method = ''post'', request = None, responses = [] \<rparr>"

text \<open>The base options \<open>httpClient\<close> builds from a configuration with static headers
  and nothing else.\<close>

definition configured :: "(string \<times> string) list \<Rightarrow> ClientRequestOptions" where
  "configured hs = \<lparr> opt_fetch = Undefined, opt_headers = Value (StaticHeaders hs),
                     opt_init = Value (JObj []) \<rparr>"

subsection \<open>Route maps as their type has them\<close>

text \<open>
  \<open>interface RouteMap { [key: string]: HttpRouteDefinition | RouteMap }\<close>: a value of a
  route map is a route definition (its path, its method, its responses and its other
  properties) or a route map again. \<open>to_js\<close> is the object such a value is at run time,
  \<open>mirror\<close> the client node the spec gives it: an endpoint for a route definition, a
  nested client with the same keys for a map.
\<close>

datatype RouteMapValue =
    RouteDef string string "(string \<times> jsval) list" "(string \<times> jsval) list"
  | SubMap "(string \<times> RouteMapValue) list"

fun to_js :: "RouteMapValue \<Rightarrow> jsval" where
  "to_js (RouteDef p m rs others) =
     JObj ([(''path'', JStr p), (''method'', JStr m), (''responses'', JObj rs)] @ others)"
| "to_js (SubMap kvs) = JObj (map (\<lambda>(k, t). (k, to_js t)) kvs)"

fun mirror :: "string \<Rightarrow> ClientRequestOptions \<Rightarrow> RouteMapValue \<Rightarrow> client" where
  "mirror baseUrl opts (RouteDef p m rs others) =
     Endpoint baseUrl (to_js (RouteDef p m rs others)) opts"
| "mirror baseUrl opts (SubMap kvs) = Client (map (\<lambda>(k, t). (k, mirror baseUrl opts t)) kvs)"

text \<open>No key, at any level, is \<open>__proto__\<close>.\<close>

fun ordinary_keys :: "RouteMapValue \<Rightarrow> bool" where
  "ordinary_keys (RouteDef p m rs others) = True"
| "ordinary_keys (SubMap kvs) =
     (''__proto__'' \<notin> set (map fst kvs) \<and> list_all (\<lambda>(k, t). ordinary_keys t) kvs)"

text \<open>An object has each key once, at every level.\<close>

fun distinct_keys :: "RouteMapValue \<Rightarrow> bool" where
  "distinct_keys (RouteDef p m rs others) = True"
| "distinct_keys (SubMap kvs) =
     (distinct (map fst kvs) \<and> list_all (\<lambda>(k, t). distinct_keys t) kvs)"

definition user_route :: RouteMapValue where
  "user_route = RouteDef ''/users/:id'' ''get'' [(''200'', JStr ''User found'')] []"

subsection \<open>Substitution by name\<close>

text \<open>
  A name character is one that neither starts a placeholder nor bounds one; a plain key
  is made of name characters that stand for themselves in a pattern.
\<close>

definition name_char :: "char \<Rightarrow> bool" where
  "name_char c = (c \<noteq> CHR '':'' \<and> c \<noteq> CHR ''/'' \<and> c \<noteq> CHR ''?'' \<and> c \<noteq> CHR ''#'')"

definition plain_key :: "string \<Rightarrow> bool" where
  "plain_key key = (list_all name_char key \<and> literal_key key)"

text \<open>
  A template is separated when the name after every colon runs up to the end of the
  string or to \<open>/\<close>, \<open>?\<close> or \<open>#\<close>, and not into another colon.
\<close>

function separated :: "string \<Rightarrow> bool" where
  "separated [] = True"
| "separated (c # cs) =
     (if c = CHR '':''
      then boundary (dropWhile name_char cs) \<and> separated (dropWhile name_char cs)
      else separated cs)"
  by pat_completeness auto
termination
  by (relation "measure length") (auto simp: length_dropWhile_le le_imp_less_Suc)

text \<open>
  Substitution in one pass: every placeholder, a colon with the name characters after
  it, that is bounded on the right is replaced by what \<open>f\<close> gives its name, and stays
  when \<open>f\<close> gives nothing.
\<close>

function substitute :: "(string \<Rightarrow> string option) \<Rightarrow> string \<Rightarrow> string" where
  "substitute f [] = []"
| "substitute f (c # cs) =
     (if c = CHR '':''
      then (case (if boundary (dropWhile name_char cs) then f (takeWhile name_char cs) else None) of
              Some rep \<Rightarrow> rep
            | None \<Rightarrow> CHR '':'' # takeWhile name_char cs)
           @ substitute f (dropWhile name_char cs)
      else c # substitute f cs)"
  by pat_completeness auto
termination
  by (relation "measure (\<lambda>(f, s). length s)") (auto simp: length_dropWhile_le le_imp_less_Suc)

text \<open>What a params object gives a name: its value under that key, encoded, unless the
  value is \<open>undefined\<close>.\<close>

definition param_value :: "(string \<times> jsval) list \<Rightarrow> string \<Rightarrow> string option" where
  "param_value kvs name =
     (case map_of kvs name of
        None \<Rightarrow> None
      | Some v \<Rightarrow> if v \<noteq> JUndefined then Some (encodeURIComponent (js_String v)) else None)"

text \<open>The step of the loop of \<open>replaceUrlParams\<close>.\<close>

definition param_step :: "string \<times> jsval \<Rightarrow> string \<Rightarrow> string" where
  "param_step = (\<lambda>(key, v) result.
             if v \<noteq> JUndefined
             then replace_param key (encodeURIComponent (js_String v)) result
             else result)"

section \<open>Verified properties\<close>

subsection \<open>mergePath\<close>

lemma takeWhile_slash_replicate:
  "takeWhile is_slash xs = replicate (length (takeWhile is_slash xs)) (CHR ''/'')"
  by (induction xs) (auto simp: is_slash_def)

lemma strip_leading_decomp:
  "pth = replicate (length (takeWhile is_slash pth)) (CHR ''/'') @ strip_leading_slashes pth"
  unfolding strip_leading_slashes_def
  by (metis takeWhile_dropWhile_id takeWhile_slash_replicate)

lemma strip_leading_hd:
  "strip_leading_slashes pth = [] \<or> hd (strip_leading_slashes pth) \<noteq> CHR ''/''"
  unfolding strip_leading_slashes_def
  using hd_dropWhile [of is_slash pth] by (auto simp: is_slash_def)

lemma strip_trailing_decomp:
  "base = strip_trailing_slashes base @ replicate (length (takeWhile is_slash (rev base))) (CHR ''/'')"
proof -
  have "rev base = takeWhile is_slash (rev base) @ dropWhile is_slash (rev base)"
    by simp
  then have "base = rev (dropWhile is_slash (rev base)) @ rev (takeWhile is_slash (rev base))"
    by (metis rev_append rev_rev_ident)
  moreover have "rev (takeWhile is_slash (rev base))
      = replicate (length (takeWhile is_slash (rev base))) (CHR ''/'')"
    by (metis takeWhile_slash_replicate rev_replicate)
  ultimately show ?thesis
    by (simp add: strip_trailing_slashes_def)
qed

lemma strip_trailing_last:
  "strip_trailing_slashes base = [] \<or> last (strip_trailing_slashes base) \<noteq> CHR ''/''"
  unfolding strip_trailing_slashes_def
  using hd_dropWhile [of is_slash "rev base"] by (auto simp: is_slash_def last_rev)

text \<open>
  C8, as the code has it. \<open>mergePath\<close> cuts every trailing slash of the base and every
  leading slash of the path and joins the two with one \<open>/\<close>: the base is \<open>b\<close> followed
  by slashes only, the path is slashes followed by \<open>p\<close>, \<open>b\<close> does not end and \<open>p\<close> does not
  start with a slash, and the result is \<open>b/p\<close>. With the empty base the result is
  \<open>/\<close> followed by the path without its leading slashes; it is the path itself exactly
  when the path starts with one slash and not two.
\<close>

theorem mergePath_single_separator:
  "(\<exists>b p n m. base = b @ replicate n (CHR ''/'') \<and> pth = replicate m (CHR ''/'') @ p
      \<and> (b = [] \<or> last b \<noteq> CHR ''/'') \<and> (p = [] \<or> hd p \<noteq> CHR ''/'')
      \<and> mergePath base pth = b @ ''/'' @ p)
   \<and> mergePath [] pth = CHR ''/'' # strip_leading_slashes pth
   \<and> (mergePath [] pth = pth \<longleftrightarrow>
        (\<exists>p. pth = CHR ''/'' # p \<and> (p = [] \<or> hd p \<noteq> CHR ''/'')))"
proof (intro conjI)
  show "\<exists>b p n m. base = b @ replicate n (CHR ''/'') \<and> pth = replicate m (CHR ''/'') @ p
      \<and> (b = [] \<or> last b \<noteq> CHR ''/'') \<and> (p = [] \<or> hd p \<noteq> CHR ''/'')
      \<and> mergePath base pth = b @ ''/'' @ p"
  proof (intro exI conjI)
    show "base = strip_trailing_slashes base
        @ replicate (length (takeWhile is_slash (rev base))) (CHR ''/'')"
      by (rule strip_trailing_decomp)
    show "pth = replicate (length (takeWhile is_slash pth)) (CHR ''/'')
        @ strip_leading_slashes pth"
      by (rule strip_leading_decomp)
    show "strip_trailing_slashes base = [] \<or> last (strip_trailing_slashes base) \<noteq> CHR ''/''"
      by (rule strip_trailing_last)
    show "strip_leading_slashes pth = [] \<or> hd (strip_leading_slashes pth) \<noteq> CHR ''/''"
      by (rule strip_leading_hd)
    show "mergePath base pth = strip_trailing_slashes base @ ''/'' @ strip_leading_slashes pth"
      by (simp add: mergePath_def)
  qed
  show e: "mergePath [] pth = CHR ''/'' # strip_leading_slashes pth"
    by (simp add: mergePath_def strip_trailing_slashes_def)
  show "mergePath [] pth = pth \<longleftrightarrow>
        (\<exists>p. pth = CHR ''/'' # p \<and> (p = [] \<or> hd p \<noteq> CHR ''/''))"
  proof
    assume "mergePath [] pth = pth"
    then have p: "pth = CHR ''/'' # strip_leading_slashes pth"
      using e by simp
    show "\<exists>p. pth = CHR ''/'' # p \<and> (p = [] \<or> hd p \<noteq> CHR ''/'')"
      using p strip_leading_hd [of pth] by blast
  next
    assume "\<exists>p. pth = CHR ''/'' # p \<and> (p = [] \<or> hd p \<noteq> CHR ''/'')"
    then obtain p where p: "pth = CHR ''/'' # p" "p = [] \<or> hd p \<noteq> CHR ''/''"
      by blast
    then have "dropWhile is_slash p = p"
      by (cases p) (auto simp: is_slash_def)
    then show "mergePath [] pth = pth"
      using p e by (simp add: strip_leading_slashes_def is_slash_def)
  qed
qed

text \<open>The theorem at a base with two trailing slashes and a path with two leading ones,
  and at the empty base with a path that starts with one slash.\<close>

theorem mergePath_single_separator_witness:
  "mergePath ''https://api.example.com//'' ''//users/:id'' = ''https://api.example.com/users/:id''
   \<and> mergePath [] ''/users'' = ''/users''"
  using mergePath_single_separator [of "''https://api.example.com//''" "''//users/:id''"]
  by (simp add: mergePath_def strip_trailing_slashes_def strip_leading_slashes_def is_slash_def)

text \<open>C8 as the spec states it fails: with the empty base a path without a leading
  slash does not come back as it is.\<close>

theorem mergePath_empty_base_counterexample:
  "mergePath [] ''users'' \<noteq> ''users''"
  by (simp add: mergePath_def strip_trailing_slashes_def strip_leading_slashes_def is_slash_def)

subsection \<open>createParseFn\<close>

text \<open>
  C5, as the code has it. A validator reaches the standard-schema branch when it has
  none of the methods tested before it and has a \<open>~standard\<close> property. Its parse
  function calls \<open>validate\<close>; an error of \<open>validate\<close> goes through; otherwise it fails with
  \<open>StandardSchemaV1Error\<close> around the issues when the result has an \<open>issues\<close> array, the
  empty array included, and returns the result's value when \<open>issues\<close> is missing.
\<close>

theorem createParseFn_standard_schema:
  assumes "parseAsync v = None" and "parse v = None" and "validateSync v = None"
    and "create v = None" and "assert v = None" and "standard v = Some validate"
  shows "\<exists>parseFn. createParseFn (Some v) = Inr parseFn
           \<and> (\<forall>x. parseFn x =
                 (case validate x of
                    Inl e \<Rightarrow> Inl e
                  | Inr r \<Rightarrow> (case issues r of
                               Some is \<Rightarrow> Inl (StandardSchemaV1Error is)
                             | None \<Rightarrow> Inr (result_value r))))"
  using assms
  by (cases "callable v") (simp_all add: createParseFn_def bind_result_def)

theorem createParseFn_standard_schema_witness:
  "\<exists>parseFn. createParseFn (Some (standard_only (\<lambda>x. Inr \<lparr> issues = None, result_value = x \<rparr>)))
       = Inr parseFn \<and> parseFn (JNum 7) = Inr (JNum 7)"
  using createParseFn_standard_schema
    [of "standard_only (\<lambda>x. Inr \<lparr> issues = None, result_value = x \<rparr>)"
        "\<lambda>x. Inr \<lparr> issues = None, result_value = x \<rparr>"]
  by (auto simp: standard_only_def)

text \<open>C5 as the spec states it fails: a result whose issues are the empty array makes
  the parse function fail, where the spec has it return the value.\<close>

theorem createParseFn_empty_issues_counterexample:
  "\<exists>parseFn. createParseFn (Some (standard_only (\<lambda>x. Inr \<lparr> issues = Some [], result_value = x \<rparr>)))
       = Inr parseFn \<and> parseFn (JNum 7) = Inl (StandardSchemaV1Error [])"
  by (simp add: createParseFn_def standard_only_def bind_result_def)

subsection \<open>validateRequest\<close>

text \<open>
  C1 at a failing input. The route marks its body as not validated (\<open>null\<close>) and the
  caller supplies the body \<open>0\<close>: the processed arguments have no body. The branch for
  a slot without a validator tests the argument for truthiness, where the branch with a
  validator tests it against \<open>undefined\<close>.
\<close>

theorem validateRequest_drops_falsy_unvalidated:
  "validateRequest
     (new_HttpClientRequest []
        \<lparr> path = ''/test'', route_method = ''post'',
          request = Some \<lparr> params = None, query = None, body = Some None, headers = None \<rparr>,
          responses = [] \<rparr> no_options)
     \<lparr> params = JUndefined, query = JUndefined, body = JNum 0, headers = JUndefined \<rparr>
   = Inr \<lparr> params = None, query = None, body = None, headers = None \<rparr>"
  by (simp add: validateRequest_def validateSlot_def declared_def new_HttpClientRequest_def
      bind_result_def)

text \<open>What does hold of a slot: one that was not supplied is absent, a supplied one
  with a validator holds the validator's result, and a supplied truthy one without a
  validator is passed through.\<close>

lemma validateSlot_holds:
  "validateSlot schema JUndefined = Inr None"
  "arg \<noteq> JUndefined \<Longrightarrow> createParseFn (Some v) = Inr parseFn \<Longrightarrow> parseFn arg = Inr r \<Longrightarrow>
     validateSlot (Some v) arg = Inr (Some r)"
  "truthy arg \<Longrightarrow> validateSlot None arg = Inr (Some arg)"
  by (simp_all add: validateSlot_def bind_result_def split: option.splits)

lemma validateSlot_error:
  "validateSlot schema arg = Inl e \<longleftrightarrow> slot_error schema arg = Some e"
  by (auto simp: validateSlot_def slot_error_def bind_result_def split: option.splits sum.splits)

lemma validateSlot_ok:
  "(\<exists>p. validateSlot schema arg = Inr p) \<longleftrightarrow> slot_error schema arg = None"
  by (auto simp: validateSlot_def slot_error_def bind_result_def split: option.splits sum.splits)

lemma validateRequest_first_error:
  assumes "i < 4" and "slot_errors this args ! i = Some e"
    and "\<forall>j<i. slot_errors this args ! j = None"
  shows "validateRequest this args = Inl e"
proof -
  consider "i = 0" | "i = 1" | "i = 2" | "i = 3"
    using assms(1) by linarith
  then show ?thesis
  proof cases
    case 1
    then show ?thesis
      using assms(2)
      by (simp add: slot_errors_def validateRequest_def bind_result_def
          validateSlot_error [symmetric])
  next
    case 2
    then have "slot_errors this args ! 0 = None" and "slot_errors this args ! 1 = Some e"
      using assms by auto
    then show ?thesis
      by (auto simp: slot_errors_def validateRequest_def bind_result_def
          validateSlot_error [symmetric] validateSlot_ok [symmetric])
  next
    case 3
    then have "slot_errors this args ! 0 = None" and "slot_errors this args ! 1 = None"
      and "slot_errors this args ! 2 = Some e"
      using assms by auto
    then show ?thesis
      by (auto simp: slot_errors_def validateRequest_def bind_result_def
          validateSlot_error [symmetric] validateSlot_ok [symmetric])
  next
    case 4
    then have "slot_errors this args ! 0 = None" and "slot_errors this args ! 1 = None"
      and "slot_errors this args ! 2 = None" and "slot_errors this args ! 3 = Some e"
      using assms by auto
    then show ?thesis
      by (auto simp: slot_errors_def validateRequest_def bind_result_def
          validateSlot_error [symmetric] validateSlot_ok [symmetric])
  qed
qed

subsection \<open>execute\<close>

lemma execute_validation_error:
  "validateRequest this args = Inl e \<Longrightarrow> execute env this args options = (Inl e, [])"
  by (simp add: execute_def)

lemma execute_unfold:
  "execute env this args options =
     (case validateRequest this args of
        Inl e \<Rightarrow> (Inl e, [])
      | Inr pa \<Rightarrow>
          (case optionsHeaders (deepMerge_options (baseOptions this) options) of
             Inl e \<Rightarrow> (Inl e, [])
           | Inr oh \<Rightarrow>
               (case fetchFn env this options (dispatchUrl this pa)
                       (dispatchInit env this options pa oh) of
                  Inl e \<Rightarrow> (Inl e, [Dispatched (dispatchUrl this pa)
                                        (dispatchInit env this options pa oh)])
                | Inr response \<Rightarrow>
                    (fst (validateResponse this response),
                     Dispatched (dispatchUrl this pa) (dispatchInit env this options pa oh)
                       # snd (validateResponse this response)))))"
  by (simp add: execute_def Let_def fetchFn_def dispatchUrl_def dispatchInit_def
      assembledHeaders_def split: prod.splits sum.splits)

lemmas run_defs =
  execute_unfold validateRequest_def validateSlot_def declared_def
  new_HttpClientRequest_def no_options_def no_args_def bind_result_def
  optionsHeaders_def deepMerge_options_def merge_property_def fetchFn_def
  dispatchUrl_def dispatchInit_def assembledHeaders_def withParams_def withQuery_def
  requestHeaders_def withOptionsHeaders_def prepareBody_def requestInit_def processed_def
  validateResponse_def createParseFn_def mergePath_def
  strip_trailing_slashes_def strip_leading_slashes_def is_slash_def toUpperCase_def
  toLowerCase_def headers_set_def headers_has_def headers_get_def assign_def

text \<open>
  C2. The validators run in the order params, query, body, headers. When the first
  slot whose validation throws does so with the error \<open>e\<close>, the call rejects with \<open>e\<close>
  and the run holds no dispatch: the transport was not invoked. So whenever the
  validation of any supplied slot throws, the call rejects with the error of one of the
  validators and nothing is dispatched.
\<close>

theorem execute_rejects_before_dispatch:
  "(i < 4 \<and> slot_errors this args ! i = Some e \<and> (\<forall>j<i. slot_errors this args ! j = None)
      \<longrightarrow> execute env this args options = (Inl e, []))
   \<and> (Some e' \<in> set (slot_errors this args)
      \<longrightarrow> (\<exists>e. Some e \<in> set (slot_errors this args)
             \<and> execute env this args options = (Inl e, [])))"
proof (intro conjI impI)
  assume "i < 4 \<and> slot_errors this args ! i = Some e \<and> (\<forall>j<i. slot_errors this args ! j = None)"
  then have "validateRequest this args = Inl e"
    using validateRequest_first_error [of i this args e] by blast
  then show "execute env this args options = (Inl e, [])"
    by (rule execute_validation_error)
next
  assume "Some e' \<in> set (slot_errors this args)"
  moreover have len: "length (slot_errors this args) = 4"
    by (simp add: slot_errors_def)
  ultimately obtain n where n: "n < 4" "slot_errors this args ! n \<noteq> None"
    by (metis in_set_conv_nth option.distinct(1))
  define m where "m = (LEAST k. slot_errors this args ! k \<noteq> None)"
  have m: "slot_errors this args ! m \<noteq> None"
    unfolding m_def using n(2) by (rule LeastI)
  have least: "\<forall>j<m. slot_errors this args ! j = None"
    unfolding m_def using not_less_Least by blast
  have "m \<le> n"
    unfolding m_def using n(2) by (rule Least_le)
  then have lt: "m < 4"
    using n(1) by simp
  obtain e where e: "slot_errors this args ! m = Some e"
    using m by auto
  have "validateRequest this args = Inl e"
    using lt e least by (rule validateRequest_first_error)
  then have "execute env this args options = (Inl e, [])"
    by (rule execute_validation_error)
  moreover have "Some e \<in> set (slot_errors this args)"
    using lt e len nth_mem [of m "slot_errors this args"] by simp
  ultimately show "\<exists>e. Some e \<in> set (slot_errors this args)
      \<and> execute env this args options = (Inl e, [])"
    by blast
qed

text \<open>The theorem at a route whose body validator throws, called with a body.\<close>

theorem execute_rejects_before_dispatch_witness:
  "execute test_platform (new_HttpClientRequest ''https://api.example.com'' post_route no_options)
     \<lparr> params = JUndefined, query = JUndefined, body = JObj [(''age'', JNum (- 1))],
       headers = JUndefined \<rparr> no_options
   = (Inl (Thrown (JStr ''invalid'')), [])
   \<and> slot_errors (new_HttpClientRequest ''https://api.example.com'' post_route no_options)
       \<lparr> params = JUndefined, query = JUndefined, body = JObj [(''age'', JNum (- 1))],
         headers = JUndefined \<rparr>
     = [None, None, Some (Thrown (JStr ''invalid'')), None]"
  using execute_rejects_before_dispatch [of 2
      "new_HttpClientRequest ''https://api.example.com'' post_route no_options"
      "\<lparr> params = JUndefined, query = JUndefined, body = JObj [(''age'', JNum (- 1))],
         headers = JUndefined \<rparr>" "Thrown (JStr ''invalid'')" test_platform no_options]
  by (simp add: slot_errors_def slot_error_def declared_def new_HttpClientRequest_def
      post_route_def rejecting_def createParseFn_def less_Suc_eq numeral_2_eq_2)

lemma validateResponse_warns_only:
  "ev \<in> set (snd (validateResponse this response)) \<Longrightarrow> \<exists>e. ev = Warned e"
  by (auto simp: validateResponse_def
      split: option.splits HttpResponseDefinition.splits sum.splits if_splits)

text \<open>What does hold of response validation: a response that can be cloned comes back
  as it is, whatever \<open>json()\<close>, \<open>createParseFn\<close> and the validator do.\<close>

lemma validateResponse_cloneable:
  "\<not> bodyUsed response \<Longrightarrow> fst (validateResponse this response) = Inr response"
  by (simp add: validateResponse_def split: option.splits HttpResponseDefinition.splits sum.splits)

lemma execute_dispatched:
  assumes "execute env this args options = (r, evs)" and "Dispatched u init \<in> set evs"
  shows "\<exists>pa oh. validateRequest this args = Inr pa
      \<and> optionsHeaders (deepMerge_options (baseOptions this) options) = Inr oh
      \<and> u = dispatchUrl this pa \<and> init = dispatchInit env this options pa oh
      \<and> (\<forall>response. fetchFn env this options u init = Inr response
            \<longrightarrow> r = fst (validateResponse this response))"
proof -
  have nw: "\<forall>resp. Dispatched u init \<notin> set (snd (validateResponse this resp))"
    using validateResponse_warns_only by blast
  show ?thesis
  proof (cases "validateRequest this args")
    case (Inl e)
    then show ?thesis
      using assms by (simp add: execute_unfold)
  next
    case pa: (Inr pa)
    show ?thesis
    proof (cases "optionsHeaders (deepMerge_options (baseOptions this) options)")
      case (Inl e)
      then show ?thesis
        using assms pa by (simp add: execute_unfold)
    next
      case oh: (Inr oh)
      show ?thesis
        using assms pa oh nw
        by (cases "fetchFn env this options (dispatchUrl this pa)
            (dispatchInit env this options pa oh)") (auto simp: execute_unfold)
    qed
  qed
qed

lemma cloneable_response_returned:
  assumes "execute env this args options = (r, evs)"
    and "Dispatched u i \<in> set evs"
    and "fetchFn env this options u i = Inr response"
    and "\<not> bodyUsed response"
  shows "r = Inr response"
  using execute_dispatched [OF assms(1,2)] assms(3,4) by (auto simp: validateResponse_cloneable)

text \<open>
  C3 at a failing input. The route has a schema for status 200 and the transport hands
  over a response whose body was read already. The request is dispatched, \<open>clone()\<close>
  throws outside the \<open>try\<close> of \<open>validateResponse\<close>, and the call rejects with the
  \<open>TypeError\<close> instead of resolving with the response.
\<close>

theorem execute_rejects_on_consumed_response:
  "execute \<lparr> global_fetch = body_read, JSON_parses = (\<lambda>s. False) \<rparr>
     (new_HttpClientRequest ''https://api.example.com'' json_route no_options) no_args no_options
   = (Inl TypeError,
      [Dispatched ''https://api.example.com/users''
         [(''method'', Plain (JStr ''GET'')), (''headers'', HeadersObject []),
          (''body'', Plain JUndefined)]])"
  by (simp add: run_defs body_read_def json_route_def rejecting_def)

text \<open>With responses that can be cloned the call resolves with the response and a
  warning is written, for a body that is not JSON and for one the schema rejects.\<close>

lemma cloneable_response_examples:
  "execute \<lparr> global_fetch = broken_json, JSON_parses = (\<lambda>s. False) \<rparr>
     (new_HttpClientRequest ''https://api.example.com'' json_route no_options) no_args no_options
   = (Inr \<lparr> status = 200, bodyUsed = False, json = Inl (Thrown (JStr ''SyntaxError'')) \<rparr>,
      [Dispatched ''https://api.example.com/users''
         [(''method'', Plain (JStr ''GET'')), (''headers'', HeadersObject []),
          (''body'', Plain JUndefined)],
       Warned (Thrown (JStr ''SyntaxError''))])
   \<and> execute test_platform
     (new_HttpClientRequest ''https://api.example.com'' json_route no_options) no_args no_options
   = (Inr \<lparr> status = 200, bodyUsed = False, json = Inr (JObj []) \<rparr>,
      [Dispatched ''https://api.example.com/users''
         [(''method'', Plain (JStr ''GET'')), (''headers'', HeadersObject []),
          (''body'', Plain JUndefined)],
       Warned (Thrown (JStr ''invalid''))])"
  by (simp add: run_defs broken_json_def json_route_def rejecting_def test_platform_def
      always_ok_def)

subsection \<open>buildSearchParams\<close>

lemma search_set_fresh:
  "name \<notin> fst ` set sp \<Longrightarrow> search_set sp name v = sp @ [(name, v)]"
  by (induction sp) auto

lemma append_items_eq:
  "append_items key items sp =
     sp @ map (\<lambda>item. (key, js_String item))
            (filter (\<lambda>item. item \<noteq> JUndefined \<and> item \<noteq> JNull) items)"
  unfolding append_items_def
  by (induction items arbitrary: sp) (auto simp: search_append_def)

lemma query_pairs_keys: "fst ` set (query_pairs (key, v)) \<subseteq> {key}"
  by (auto simp: query_pairs_def split: jsval.splits if_splits)

lemma search_step:
  assumes "key \<notin> fst ` set sp"
  shows "(if v = JUndefined \<or> v = JNull then sp
          else (case v of JArr items \<Rightarrow> append_items key items sp
                | _ \<Rightarrow> search_set sp key (js_String v)))
         = sp @ query_pairs (key, v)"
  using assms
  by (cases v) (simp_all add: query_pairs_def append_items_eq search_set_fresh)

lemma search_fold:
  assumes "distinct (map fst kvs)" and "fst ` set sp \<inter> fst ` set kvs = {}"
  shows "fold (\<lambda>(key, v) searchParams.
             if v = JUndefined \<or> v = JNull then searchParams
             else (case v of
                     JArr items \<Rightarrow> append_items key items searchParams
                   | _ \<Rightarrow> search_set searchParams key (js_String v)))
          kvs sp = sp @ concat (map query_pairs kvs)"
  using assms
proof (induction kvs arbitrary: sp)
  case Nil
  then show ?case by simp
next
  case (Cons kv kvs)
  obtain key v where kv: "kv = (key, v)"
    by (cases kv)
  have fresh: "key \<notin> fst ` set sp"
    using Cons.prems(2) kv by auto
  have keys: "fst ` set (sp @ query_pairs (key, v)) \<inter> fst ` set kvs = {}"
    using Cons.prems kv query_pairs_keys [of key v] by (auto simp: image_Un)
  have "distinct (map fst kvs)"
    using Cons.prems(1) by simp
  from Cons.IH [OF this keys] show ?case
    using kv search_step [OF fresh, of v] by simp
qed

lemma show_nat_digit: "n < 10 \<Longrightarrow> show_nat n = [digit_char n]"
  by (simp add: show_nat.simps)

lemmas string_defs =
  search_toString_def form_encode_def alnum_def percent_def digit_char_def show_int_def
  show_nat_digit encodeURIComponent_def uri_unreserved_def

text \<open>
  C7, as the code has it. The keys of an object are distinct. The pairs of a query are
  those of its entries, in order: none for an \<open>undefined\<close> or \<open>null\<close> value, one per
  element that is neither \<open>undefined\<close> nor \<open>null\<close> for an array, one for any other value,
  values through \<open>String\<close>. \<open>execute\<close> appends their serialization, when it is not empty,
  with \<open>&\<close> if the URL holds a \<open>?\<close> and with \<open>?\<close> if not; an empty serialization leaves
  the URL as it is.
\<close>

theorem buildSearchParams_pairs:
  assumes "distinct (map fst (entries q))"
  shows "buildSearchParams q = concat (map query_pairs (entries q))
    \<and> withQuery u q =
        (if truthy q \<and> search_toString (buildSearchParams q) \<noteq> []
         then u @ (if CHR ''?'' \<in> set u then ''&'' else ''?'')
                @ search_toString (buildSearchParams q)
         else u)"
  using search_fold [OF assms, of "[]"]
  by (simp add: buildSearchParams_def withQuery_def Let_def)

text \<open>The theorem at the spec's example \<open>{page: 1, tags: ["a", "b"], x: undefined}\<close>, at a
  URL that has a \<open>?\<close> already, and at a query with nothing to send.\<close>

theorem buildSearchParams_pairs_witness:
  "withQuery ''/users''
     (JObj [(''page'', JNum 1), (''tags'', JArr [JStr ''a'', JStr ''b'']), (''x'', JUndefined)])
     = ''/users?page=1&tags=a&tags=b''
   \<and> withQuery ''/users?sort=asc'' (JObj [(''page'', JNum 1)]) = ''/users?sort=asc&page=1''
   \<and> withQuery ''/users'' (JObj [(''x'', JUndefined)]) = ''/users''"
  using buildSearchParams_pairs
    [of "JObj [(''page'', JNum 1), (''tags'', JArr [JStr ''a'', JStr ''b'']), (''x'', JUndefined)]"
        "''/users''"]
    buildSearchParams_pairs [of "JObj [(''page'', JNum 1)]" "''/users?sort=asc''"]
    buildSearchParams_pairs [of "JObj [(''x'', JUndefined)]" "''/users''"]
  by (simp add: query_pairs_def string_defs)

text \<open>C7 as the spec states it fails: an array with a \<open>null\<close> element gives fewer pairs
  than it has elements.\<close>

theorem buildSearchParams_null_element_counterexample:
  "buildSearchParams (JObj [(''tags'', JArr [JStr ''a'', JNull, JStr ''b''])])
     = [(''tags'', ''a''), (''tags'', ''b'')]
   \<and> length (buildSearchParams (JObj [(''tags'', JArr [JStr ''a'', JNull, JStr ''b''])]))
     \<noteq> length [JStr ''a'', JNull, JStr ''b'']"
  by (simp add: buildSearchParams_def append_items_def search_append_def)

subsection \<open>Headers and body of the dispatched request\<close>

lemma map_of_prop_set: "map_of (prop_set h k v) = (map_of h)(k \<mapsto> v)"
  by (induction h) (auto simp: fun_eq_iff)

lemma fold_headers_set:
  "map_of (fold (\<lambda>(key, v) hs'. headers_set hs' key v) kvs hs) n =
     (case map_of (rev (map (\<lambda>(k, v). (toLowerCase k, v)) kvs)) n of
        Some v \<Rightarrow> Some v
      | None \<Rightarrow> map_of hs n)"
proof (induction kvs arbitrary: hs)
  case Nil
  then show ?case by simp
next
  case (Cons kv kvs)
  obtain k v where kv: "kv = (k, v)"
    by (cases kv)
  show ?case
    using Cons.IH [of "headers_set hs k v"] kv
    by (auto simp: headers_set_def map_of_prop_set map_of_append map_add_def
        split: option.splits)
qed

lemma withOptionsHeaders_value:
  "header_value ohs name = Some v \<Longrightarrow>
     headers_get (withOptionsHeaders hs (Some ohs)) name = Some v"
  by (simp add: header_value_def headers_get_def withOptionsHeaders_def fold_headers_set)

lemma prepareBody_keeps:
  "headers_get hs name = Some v \<Longrightarrow>
     headers_get (snd (prepareBody parses m b hs)) name = Some v"
  by (auto simp: prepareBody_def headers_get_def headers_has_def headers_set_def
      map_of_prop_set Let_def split: option.splits)

lemma fold_prop_set_other:
  "key \<notin> fst ` set es \<Longrightarrow>
     map_of (fold (\<lambda>(k, v) obj. prop_set obj k (f v)) es obj) key = map_of obj key"
  by (induction es arbitrary: obj) (auto simp: map_of_prop_set)

lemma requestInit_headers:
  "''headers'' \<notin> init_keys init \<Longrightarrow>
     dispatched_headers (requestInit m hs b init) = Some hs"
  by (cases init)
    (simp_all add: dispatched_headers_def requestInit_def init_keys_def fold_prop_set_other)

lemma requestInit_body:
  "''body'' \<notin> init_keys init \<Longrightarrow> map_of (requestInit m hs b init) ''body'' = Some (Plain b)"
  by (cases init) (simp_all add: requestInit_def init_keys_def fold_prop_set_other)

text \<open>
  C4, as the code has it. The headers applied second are those of the merged options:
  the configured headers of the instance, merged with or replaced by the headers of the
  per-call options when the call passes any. When a run dispatched a request, the
  merged options' headers (a static map, or what the producer settled to) give a name a
  value, and the merged \<open>init\<close> options have no \<open>headers\<close> property of their own, the
  dispatched header collection has that value under the name, whatever the request-level
  headers set. When the per-call options have no \<open>headers\<close> property, the merged
  options' headers are the instance's.
\<close>

theorem options_headers_win:
  assumes "execute env this args options = (r, evs)"
    and "Dispatched u init \<in> set evs"
    and "optionsHeaders (deepMerge_options (baseOptions this) options) = Inr (Some ohs)"
    and "header_value ohs name = Some v"
    and "''headers'' \<notin> init_keys (opt_init (deepMerge_options (baseOptions this) options))"
  shows "(\<exists>hs. dispatched_headers init = Some hs \<and> headers_get hs name = Some v)
    \<and> (opt_headers options = Missing \<longrightarrow>
         opt_headers (deepMerge_options (baseOptions this) options) = opt_headers (baseOptions this))"
proof -
  obtain pa where pa: "validateRequest this args = Inr pa"
    and init: "init = dispatchInit env this options pa (Some ohs)"
    using execute_dispatched [OF assms(1,2)] assms(3) by auto
  obtain b hs where bh: "prepareBody (JSON_parses env) (http_method this)
      (processed (body pa)) (assembledHeaders pa (Some ohs)) = (b, hs)"
    by (cases "prepareBody (JSON_parses env) (http_method this)
      (processed (body pa)) (assembledHeaders pa (Some ohs))")
  have "headers_get (assembledHeaders pa (Some ohs)) name = Some v"
    using assms(4) by (simp add: assembledHeaders_def withOptionsHeaders_value)
  then have "headers_get hs name = Some v"
    using prepareBody_keeps [of "assembledHeaders pa (Some ohs)" name v
        "JSON_parses env" "http_method this" "processed (body pa)"] bh
    by simp
  moreover have "dispatched_headers init = Some hs"
    using init bh assms(5) by (simp add: dispatchInit_def requestInit_headers)
  ultimately show ?thesis
    by (simp add: deepMerge_options_def merge_property_def)
qed

text \<open>The theorem at the spec's example: the call passes the header \<open>A: 1\<close>, the
  instance is configured with \<open>A: 2\<close>, and \<open>A: 2\<close> is sent.\<close>

theorem options_headers_win_witness:
  "execute test_platform (new_HttpClientRequest [] echo_route (configured [(''A'', ''2'')]))
     \<lparr> params = JUndefined, query = JUndefined, body = JUndefined,
       headers = JObj [(''A'', JStr ''1'')] \<rparr> no_options
   = (Inr \<lparr> status = 200, bodyUsed = False, json = Inr (JObj []) \<rparr>,
      [Dispatched ''/test''
         [(''method'', Plain (JStr ''GET'')), (''headers'', HeadersObject [(''a'', ''2'')]),
          (''body'', Plain JUndefined)]])
   \<and> header_value [(''A'', ''2'')] ''A'' = Some ''2''
   \<and> headers_get [(''a'', ''2'')] ''A'' = Some ''2''"
  using options_headers_win
    [of test_platform "new_HttpClientRequest [] echo_route (configured [(''A'', ''2'')])"
      "\<lparr> params = JUndefined, query = JUndefined, body = JUndefined,
         headers = JObj [(''A'', JStr ''1'')] \<rparr>" no_options]
  by (simp add: run_defs test_platform_def always_ok_def echo_route_def configured_def
      header_value_def)

text \<open>C4 as the spec states it fails: the same call with per-call options that carry
  \<open>A: 3\<close> sends \<open>A: 3\<close>, not the instance's value.\<close>

theorem per_call_options_headers_counterexample:
  "execute test_platform (new_HttpClientRequest [] echo_route (configured [(''A'', ''2'')]))
     \<lparr> params = JUndefined, query = JUndefined, body = JUndefined,
       headers = JObj [(''A'', JStr ''1'')] \<rparr>
     \<lparr> opt_fetch = Missing, opt_headers = Value (StaticHeaders [(''A'', ''3'')]),
       opt_init = Missing \<rparr>
   = (Inr \<lparr> status = 200, bodyUsed = False, json = Inr (JObj []) \<rparr>,
      [Dispatched ''/test''
         [(''method'', Plain (JStr ''GET'')), (''headers'', HeadersObject [(''a'', ''3'')]),
          (''body'', Plain JUndefined)]])"
  by (simp add: run_defs test_platform_def always_ok_def echo_route_def configured_def)


lemma JSON_stringify_container:
  "isObject b \<or> is_array b \<Longrightarrow> \<exists>s. JSON_stringify b = Some s"
  by (cases b) (auto simp: isObject_def)

lemma prepareBody_array:
  assumes "m \<notin> set [''GET'', ''HEAD'']"
  shows "\<exists>s. JSON_stringify (JArr xs) = Some s \<and> prepareBody parses m (JArr xs) hs = (JStr s, hs)"
  using assms
  by (simp add: prepareBody_def serializeBody_def getContentType_def isObject_def)

lemma prepareBody_object:
  assumes "m \<notin> set [''GET'', ''HEAD'']"
  shows "\<exists>s. JSON_stringify (JObj kvs) = Some s
     \<and> prepareBody parses m (JObj kvs) hs =
         (JStr s, if headers_has hs ''Content-Type'' then hs
                  else headers_set hs ''Content-Type'' ''application/json'')"
  using assms
  by (simp add: prepareBody_def serializeBody_def getContentType_def isObject_def)

text \<open>
  C10, as the code has it. For a method other than GET and HEAD, when the merged
  \<open>init\<close> options have no \<open>body\<close> and no \<open>headers\<close> property of their own: an array body is
  dispatched as its JSON text with the header collection as the request-level and
  options headers left it, no Content-Type added; a plain-object body is dispatched as
  its JSON text with Content-Type \<open>application/json\<close> added unless the collection has a
  Content-Type already.
\<close>

theorem array_body_json_without_content_type:
  assumes "execute env this args options = (r, evs)"
    and "Dispatched u init \<in> set evs"
    and "validateRequest this args = Inr pa"
    and "optionsHeaders (deepMerge_options (baseOptions this) options) = Inr oh"
    and "http_method this \<notin> set [''GET'', ''HEAD'']"
    and "''body'' \<notin> init_keys (opt_init (deepMerge_options (baseOptions this) options))"
    and "''headers'' \<notin> init_keys (opt_init (deepMerge_options (baseOptions this) options))"
  shows "(processed (body pa) = JArr xs \<longrightarrow>
           (\<exists>s. JSON_stringify (JArr xs) = Some s \<and> map_of init ''body'' = Some (Plain (JStr s)))
           \<and> dispatched_headers init = Some (assembledHeaders pa oh))
       \<and> (processed (body pa) = JObj kvs \<longrightarrow>
           (\<exists>s. JSON_stringify (JObj kvs) = Some s \<and> map_of init ''body'' = Some (Plain (JStr s)))
           \<and> dispatched_headers init =
               Some (if headers_has (assembledHeaders pa oh) ''Content-Type''
                     then assembledHeaders pa oh
                     else headers_set (assembledHeaders pa oh) ''Content-Type''
                            ''application/json''))"
proof -
  have init: "init = dispatchInit env this options pa oh"
    using execute_dispatched [OF assms(1,2)] assms(3,4) by auto
  show ?thesis
  proof (intro conjI impI)
    assume b: "processed (body pa) = JArr xs"
    obtain s where s: "JSON_stringify (JArr xs) = Some s"
      "prepareBody (JSON_parses env) (http_method this) (JArr xs) (assembledHeaders pa oh)
         = (JStr s, assembledHeaders pa oh)"
      using prepareBody_array [OF assms(5)] by blast
    show "\<exists>s. JSON_stringify (JArr xs) = Some s \<and> map_of init ''body'' = Some (Plain (JStr s))"
      using s b init assms(6) by (simp add: dispatchInit_def requestInit_body)
    show "dispatched_headers init = Some (assembledHeaders pa oh)"
      using s b init assms(7) by (simp add: dispatchInit_def requestInit_headers)
  next
    assume b: "processed (body pa) = JObj kvs"
    obtain s where s: "JSON_stringify (JObj kvs) = Some s"
      "prepareBody (JSON_parses env) (http_method this) (JObj kvs) (assembledHeaders pa oh)
         = (JStr s, if headers_has (assembledHeaders pa oh) ''Content-Type''
                    then assembledHeaders pa oh
                    else headers_set (assembledHeaders pa oh) ''Content-Type''
                           ''application/json'')"
      using prepareBody_object [OF assms(5)] by blast
    show "\<exists>s. JSON_stringify (JObj kvs) = Some s \<and> map_of init ''body'' = Some (Plain (JStr s))"
      using s b init assms(6) by (simp add: dispatchInit_def requestInit_body)
    show "dispatched_headers init =
               Some (if headers_has (assembledHeaders pa oh) ''Content-Type''
                     then assembledHeaders pa oh
                     else headers_set (assembledHeaders pa oh) ''Content-Type''
                            ''application/json'')"
      using s b init assms(7) by (simp add: dispatchInit_def requestInit_headers)
  qed
qed

text \<open>The theorem at a POST with the body \<open>[1, 2]\<close> and at one with the body \<open>{n: 1}\<close>.\<close>

theorem array_body_json_without_content_type_witness:
  "execute test_platform (new_HttpClientRequest [] upload_route no_options)
     \<lparr> params = JUndefined, query = JUndefined, body = JArr [JNum 1, JNum 2],
       headers = JUndefined \<rparr> no_options
   = (Inr \<lparr> status = 200, bodyUsed = False, json = Inr (JObj []) \<rparr>,
      [Dispatched ''/items''
         [(''method'', Plain (JStr ''POST'')), (''headers'', HeadersObject []),
          (''body'', Plain (JStr ''[1,2]''))]])
   \<and> execute test_platform (new_HttpClientRequest [] upload_route no_options)
     \<lparr> params = JUndefined, query = JUndefined, body = JObj [(''n'', JNum 1)],
       headers = JUndefined \<rparr> no_options
   = (Inr \<lparr> status = 200, bodyUsed = False, json = Inr (JObj []) \<rparr>,
      [Dispatched ''/items''
         [(''method'', Plain (JStr ''POST'')),
          (''headers'', HeadersObject [(''content-type'', ''application/json'')]),
          (''body'', Plain (JStr (''{'' @ json_quote ''n'' @ '':1}'')))]])"
  using array_body_json_without_content_type
    [of test_platform "new_HttpClientRequest [] upload_route no_options"
      "\<lparr> params = JUndefined, query = JUndefined, body = JArr [JNum 1, JNum 2],
         headers = JUndefined \<rparr>" no_options]
  by (simp add: run_defs test_platform_def always_ok_def upload_route_def
      serializeBody_def getContentType_def isObject_def string_defs)

text \<open>C10 as the spec states it fails: per-call \<open>init\<close> options with a \<open>body\<close> property
  replace the serialized array in the dispatched request.\<close>

theorem init_body_counterexample:
  "execute test_platform (new_HttpClientRequest [] upload_route no_options)
     \<lparr> params = JUndefined, query = JUndefined, body = JArr [JNum 1, JNum 2],
       headers = JUndefined \<rparr>
     \<lparr> opt_fetch = Missing, opt_headers = Missing,
       opt_init = Value (JObj [(''body'', JStr ''raw'')]) \<rparr>
   = (Inr \<lparr> status = 200, bodyUsed = False, json = Inr (JObj []) \<rparr>,
      [Dispatched ''/items''
         [(''method'', Plain (JStr ''POST'')), (''headers'', HeadersObject []),
          (''body'', Plain (JStr ''raw''))]])"
  by (simp add: run_defs test_platform_def always_ok_def upload_route_def
      serializeBody_def getContentType_def isObject_def string_defs)

subsection \<open>createClientFromRouteMap\<close>

lemma to_js_object: "isObject (to_js t)"
  by (cases t) (simp_all add: isObject_def)

lemma to_js_not_string: "\<not> is_string (to_js t)"
  by (cases t) simp_all

lemma route_is_route: "isRouteDefinition (to_js (RouteDef p m rs others))"
  by (simp add: isRouteDefinition_def isObject_def js_get_def prop_get_def)

lemma map_is_not_route: "\<not> isRouteDefinition (to_js (SubMap kvs))"
proof -
  have "\<not> is_string (js_get (to_js (SubMap kvs)) ''path'')"
  proof (cases "map_of (map (\<lambda>(k, t). (k, to_js t)) kvs) ''path''")
    case None
    then show ?thesis
      by (simp add: js_get_def prop_get_def)
  next
    case (Some v)
    then have "(''path'', v) \<in> set (map (\<lambda>(k, t). (k, to_js t)) kvs)"
      by (rule map_of_SomeD)
    then obtain t where "v = to_js t"
      by auto
    then show ?thesis
      using Some to_js_not_string by (simp add: js_get_def prop_get_def)
  qed
  then show ?thesis
    by (simp add: isRouteDefinition_def)
qed

lemma assign_fresh:
  "key \<noteq> ''__proto__'' \<Longrightarrow> key \<notin> fst ` set kvs \<Longrightarrow> assign kvs key v = kvs @ [(key, v)]"
  unfolding assign_def by (induction kvs) auto

lemma fold_mirror:
  assumes "\<And>k t c. (k, t) \<in> set kvs \<Longrightarrow> step (k, to_js t) c = assign c k (f t)"
    and "distinct (map fst kvs)" and "fst ` set acc \<inter> fst ` set kvs = {}"
    and "''__proto__'' \<notin> set (map fst kvs)"
  shows "fold step (map (\<lambda>(k, t). (k, to_js t)) kvs) acc = acc @ map (\<lambda>(k, t). (k, f t)) kvs"
  using assms
proof (induction kvs arbitrary: acc)
  case Nil
  then show ?case by simp
next
  case (Cons kt kvs)
  obtain k t where kt: "kt = (k, t)"
    by (cases kt)
  have fresh: "k \<notin> fst ` set acc" and ord: "k \<noteq> ''__proto__''"
    using Cons.prems(3,4) kt by auto
  have step: "step (k, to_js t) acc = acc @ [(k, f t)]"
    using Cons.prems(1) [of k t acc] kt fresh ord by (simp add: assign_fresh)
  have "fst ` set (acc @ [(k, f t)]) \<inter> fst ` set kvs = {}"
    using Cons.prems(2,3) kt by (auto simp: image_Un)
  moreover have "''__proto__'' \<notin> set (map fst kvs)"
    using Cons.prems(4) by simp
  ultimately have "fold step (map (\<lambda>(k, t). (k, to_js t)) kvs) (acc @ [(k, f t)])
      = (acc @ [(k, f t)]) @ map (\<lambda>(k, t). (k, f t)) kvs"
    using Cons.IH [of "acc @ [(k, f t)]"] Cons.prems(1,2) by simp
  then show ?case
    using kt step by simp
qed

lemma client_of_map_aux:
  "distinct_keys t \<Longrightarrow> ordinary_keys t \<Longrightarrow> t = SubMap kvs \<Longrightarrow>
     createClientFromRouteMap (to_js t) baseUrl opts
       = map (\<lambda>(k, t). (k, mirror baseUrl opts t)) kvs"
proof (induction t arbitrary: kvs)
  case (RouteDef p m rs others)
  then show ?case by simp
next
  case (SubMap kvs0)
  have kvs: "kvs0 = kvs"
    using SubMap.prems(3) by simp
  have step: "(\<lambda>(key, v) client.
             if isRouteDefinition v then assign client key (Endpoint baseUrl v opts)
             else if isObject v
               then assign client key (Client (createClientFromRouteMap v baseUrl opts))
             else client) (k, to_js t) c = assign c k (mirror baseUrl opts t)"
    if kt: "(k, t) \<in> set kvs" for k t c
  proof (cases t)
    case (RouteDef p m rs others)
    then show ?thesis
      using route_is_route [of p m rs others] by simp
  next
    case sub: (SubMap kvs')
    have "distinct_keys t" and "ordinary_keys t"
      using SubMap.prems(1,2) kt kvs by (auto simp: list_all_iff)
    moreover have "t \<in> Basic_BNFs.snds (k, t)"
      by simp
    ultimately have "createClientFromRouteMap (to_js t) baseUrl opts
        = map (\<lambda>(k, t). (k, mirror baseUrl opts t)) kvs'"
      using SubMap.IH [of "(k, t)" t kvs'] kt kvs sub by simp
    then show ?thesis
      using sub map_is_not_route [of kvs'] to_js_object [of "SubMap kvs'"] by simp
  qed
  have "createClientFromRouteMap (to_js (SubMap kvs)) baseUrl opts =
      fold (\<lambda>(key, v) client.
             if isRouteDefinition v then assign client key (Endpoint baseUrl v opts)
             else if isObject v
               then assign client key (Client (createClientFromRouteMap v baseUrl opts))
             else client)
        (map (\<lambda>(k, t). (k, to_js t)) kvs) []"
    by (subst createClientFromRouteMap.simps) simp
  then show ?case
    using fold_mirror [of kvs _ "mirror baseUrl opts" "[]", OF step] SubMap.prems(1,2) kvs
    by simp
qed

text \<open>
  What does hold of the client tree. For every route map, to any depth, whose objects
  have each key once and no key \<open>__proto__\<close>: the client built from the object the map is
  at run time is its mirror image, key by key and in the same order, with an endpoint
  closed over the route definition where the map has a route definition and the mirror
  image of the nested map where it has a map. The duck-typing test holds of the object
  of a route definition and of no map's object.
\<close>

lemma client_mirrors_ordinary_route_map:
  assumes "distinct_keys (SubMap kvs)" and "ordinary_keys (SubMap kvs)"
  shows "createClientFromRouteMap (to_js (SubMap kvs)) baseUrl opts
           = map (\<lambda>(k, t). (k, mirror baseUrl opts t)) kvs
       \<and> map fst (createClientFromRouteMap (to_js (SubMap kvs)) baseUrl opts) = map fst kvs
       \<and> (\<forall>t. isRouteDefinition (to_js t) \<longleftrightarrow> (\<exists>p m rs others. t = RouteDef p m rs others))"
proof -
  have c: "createClientFromRouteMap (to_js (SubMap kvs)) baseUrl opts
           = map (\<lambda>(k, t). (k, mirror baseUrl opts t)) kvs"
    using assms by (rule client_of_map_aux) simp
  have "isRouteDefinition (to_js t) \<longleftrightarrow> (\<exists>p m rs others. t = RouteDef p m rs others)" for t
    using route_is_route map_is_not_route by (cases t) auto
  then show ?thesis
    using c by (simp add: case_prod_beta comp_def)
qed

lemmas tree_defs =
  createClientFromRouteMap.simps isRouteDefinition_def isObject_def js_get_def prop_get_def
  assign_def user_route_def

text \<open>The lemma at the three-level map \<open>a.b.c\<close>.\<close>

lemma nested_route_map_example:
  "createClientFromRouteMap
     (JObj [(''a'', JObj [(''b'', JObj [(''c'', to_js user_route)])])])
     ''https://api.example.com'' no_options
   = [(''a'', Client [(''b'', Client [(''c'',
        Endpoint ''https://api.example.com'' (to_js user_route) no_options)])])]"
  using client_mirrors_ordinary_route_map
    [of "[(''a'', SubMap [(''b'', SubMap [(''c'', user_route)])])]"
        "''https://api.example.com''" no_options]
  by (simp add: user_route_def)

text \<open>The test asks for all three properties: an object with a string \<open>path\<close> and nothing
  else is taken for a nested map, and one whose \<open>responses\<close> is \<open>null\<close> for a route.\<close>

lemma duck_typing_examples:
  "createClientFromRouteMap (JObj [(''x'', JObj [(''path'', JStr ''/a'')])]) [] no_options
     = [(''x'', Client [])]"
  "createClientFromRouteMap
     (JObj [(''x'', JObj [(''path'', JStr ''/a''), (''method'', JStr ''get'')])]) [] no_options
     = [(''x'', Client [])]"
  "createClientFromRouteMap
     (JObj [(''x'', JObj [(''path'', JStr ''/a''), (''method'', JStr ''get''),
                         (''responses'', JNull)])]) [] no_options
     = [(''x'', Endpoint [] (JObj [(''path'', JStr ''/a''), (''method'', JStr ''get''),
                                   (''responses'', JNull)]) no_options)]"
  by (simp_all add: tree_defs)

text \<open>
  C9 at a failing input. The route map has a route definition under the key
  \<open>__proto__\<close> and one under \<open>users\<close>. The assignment \<open>client[key] = ...\<close> goes to the
  prototype accessor for the first: the client has the key \<open>users\<close> only, and no
  endpoint of its own for the route definition at \<open>__proto__\<close>.
\<close>

theorem createClientFromRouteMap_drops_proto_key:
  "createClientFromRouteMap
     (JObj [(''__proto__'', to_js user_route), (''users'', to_js user_route)])
     ''https://api.example.com'' no_options
   = [(''users'', Endpoint ''https://api.example.com'' (to_js user_route) no_options)]
   \<and> distinct_keys (SubMap [(''__proto__'', user_route), (''users'', user_route)])"
  by (simp add: tree_defs)

subsection \<open>replaceUrlParams\<close>

lemma replace_param_prefix:
  "CHR '':'' \<notin> set p \<Longrightarrow> replace_param key rep (p @ s) = p @ replace_param key rep s"
  by (induction p) auto

lemma boundary_replace_param: "boundary s \<Longrightarrow> boundary (replace_param key rep s)"
  by (cases s) (auto simp: boundary_def)

lemma boundary_substitute: "boundary s \<Longrightarrow> boundary (substitute f s)"
  by (cases s) (auto simp: boundary_def)

lemma boundary_not_name: "boundary (c # s) \<Longrightarrow> \<not> name_char c"
  by (auto simp: boundary_def name_char_def)

lemma name_chars_no_colon: "list_all name_char nm \<Longrightarrow> CHR '':'' \<notin> set nm"
  by (auto simp: list_all_iff name_char_def)

lemma no_shorter_match:
  assumes nm: "list_all name_char nm" and lt: "n < length nm"
  shows "\<not> boundary (drop n (nm @ y))"
proof -
  have "drop n (nm @ y) = (nm ! n) # drop (Suc n) nm @ y"
    using lt by (simp add: Cons_nth_drop_Suc)
  moreover have "name_char (nm ! n)"
    using nm lt by (simp add: list_all_length)
  ultimately show ?thesis
    using boundary_not_name by force
qed

lemma no_longer_match:
  assumes k: "list_all name_char key" and y: "boundary y" and gt: "length nm < length key"
  shows "take (length key) (nm @ y) \<noteq> key"
proof
  assume m: "take (length key) (nm @ y) = key"
  show False
  proof (cases y)
    case Nil
    have "length (take (length key) (nm @ y)) = length key"
      using arg_cong [OF m, of length] .
    then show False
      using gt Nil by simp
  next
    case (Cons c y')
    obtain d where d: "length key - length nm = Suc d"
      using gt by (cases "length key - length nm") auto
    have "take (length key) (nm @ y) = nm @ c # take d y'"
      using gt Cons d by simp
    then have "c \<in> set key"
      using m by (metis in_set_conv_decomp)
    then have "name_char c"
      using k by (simp add: list_all_iff)
    then show False
      using y Cons boundary_not_name by blast
  qed
qed

lemma replace_param_token:
  assumes nm: "list_all name_char nm" and k: "list_all name_char key" and y: "boundary y"
  shows "replace_param key rep (CHR '':'' # nm @ y)
           = (if key = nm then rep else CHR '':'' # nm) @ replace_param key rep y"
proof (cases "key = nm")
  case True
  then show ?thesis
    using y by simp
next
  case False
  have "\<not> (take (length key) (nm @ y) = key \<and> boundary (drop (length key) (nm @ y)))"
  proof (cases "length key < length nm")
    case True
    then show ?thesis
      using no_shorter_match [OF nm] by blast
  next
    case ge: False
    show ?thesis
    proof (cases "length key = length nm")
      case True
      then have "take (length key) (nm @ y) = nm"
        by simp
      then show ?thesis
        using False by auto
    next
      case False
      then have "length nm < length key"
        using ge by simp
      then show ?thesis
        using no_longer_match [OF k y] by blast
    qed
  qed
  then have "replace_param key rep (CHR '':'' # nm @ y) = CHR '':'' # replace_param key rep (nm @ y)"
    by (simp only: replace_param.simps(2) if_False simp_thms)
  then show ?thesis
    using False nm by (simp add: replace_param_prefix name_chars_no_colon)
qed


lemma digit_char_hex: "digit_char n \<in> set ''0123456789ABCDEF''"
  unfolding digit_char_def by (rule nth_mem) simp

lemma digit_char_name: "name_char (digit_char n)"
  using digit_char_hex [of n] by (auto simp: name_char_def)

lemma unreserved_name: "uri_unreserved c \<Longrightarrow> name_char c"
  unfolding uri_unreserved_def alnum_def name_char_def by auto

lemma percent_name: "c' \<in> set (percent c) \<Longrightarrow> name_char c'"
  using digit_char_name by (auto simp: percent_def name_char_def)

lemma encodeURIComponent_name_chars: "list_all name_char (encodeURIComponent x)"
  unfolding encodeURIComponent_def list_all_iff
  using unreserved_name percent_name by (auto split: if_splits)

lemma takeWhile_name_chars: "list_all name_char (takeWhile name_char cs)"
  by (auto simp: list_all_iff dest: set_takeWhileD)

lemma substitute_colon:
  "boundary (dropWhile name_char cs) \<Longrightarrow>
     substitute f (CHR '':'' # cs) =
       (case f (takeWhile name_char cs) of
          Some rep \<Rightarrow> rep
        | None \<Rightarrow> CHR '':'' # takeWhile name_char cs)
       @ substitute f (dropWhile name_char cs)"
  by simp

lemma replace_param_substitute:
  assumes "separated s" and "list_all name_char key" and "f key = None"
    and "\<forall>nm r. f nm = Some r \<longrightarrow> CHR '':'' \<notin> set r"
  shows "replace_param key rep (substitute f s) = substitute (\<lambda>a. if a = key then Some rep else f a) s"
  using assms(1)
proof (induction s rule: separated.induct)
  case 1
  show ?case by simp
next
  case (2 c cs)
  show ?case
  proof (cases "c = CHR '':''")
    case False
    then have "separated cs"
      using "2.prems" by simp
    then have "replace_param key rep (substitute f cs) = substitute (\<lambda>a. if a = key then Some rep else f a) cs"
      using "2.IH"(2) False by blast
    then show ?thesis
      using False by simp
  next
    case True
    define nm where "nm = takeWhile name_char cs"
    define rest where "rest = dropWhile name_char cs"
    have b: "boundary rest" and sep: "separated rest"
      using "2.prems" True by (simp_all add: rest_def)
    have ih: "replace_param key rep (substitute f rest) = substitute (\<lambda>a. if a = key then Some rep else f a) rest"
      using "2.IH"(1) True sep by (simp add: rest_def)
    have nmc: "list_all name_char nm"
      by (simp add: nm_def takeWhile_name_chars)
    have lhs: "substitute f (c # cs)
        = (case f nm of Some r \<Rightarrow> r | None \<Rightarrow> CHR '':'' # nm) @ substitute f rest"
      using True b substitute_colon [of cs f] unfolding nm_def rest_def by simp
    have rhs: "substitute (\<lambda>a. if a = key then Some rep else f a) (c # cs)
        = (case (\<lambda>a. if a = key then Some rep else f a) nm of Some r \<Rightarrow> r | None \<Rightarrow> CHR '':'' # nm)
          @ substitute (\<lambda>a. if a = key then Some rep else f a) rest"
      using True b substitute_colon [of cs "\<lambda>a. if a = key then Some rep else f a"]
      unfolding nm_def rest_def by simp
    show ?thesis
    proof (cases "f nm")
      case (Some r)
      then have "CHR '':'' \<notin> set r" and "nm \<noteq> key"
        using assms(3,4) by auto
      then show ?thesis
        using lhs rhs Some ih by (simp add: replace_param_prefix)
    next
      case None
      have "replace_param key rep (CHR '':'' # nm @ substitute f rest)
          = (if key = nm then rep else CHR '':'' # nm) @ replace_param key rep (substitute f rest)"
        using nmc assms(2) boundary_substitute [OF b] by (rule replace_param_token)
      then show ?thesis
        using lhs rhs None ih by auto
    qed
  qed
qed

lemma substitute_nothing: "substitute (\<lambda>nm. None) s = s"
  by (induction s rule: separated.induct) (auto simp: if_splits)

lemma param_fold:
  assumes "separated s" and "distinct (map fst kvs)"
    and "\<forall>k \<in> fst ` set kvs. list_all name_char k \<and> f k = None"
    and "\<forall>nm r. f nm = Some r \<longrightarrow> CHR '':'' \<notin> set r"
  shows "fold param_step kvs (substitute f s)
           = substitute (\<lambda>nm. case param_value kvs nm of Some r \<Rightarrow> Some r | None \<Rightarrow> f nm) s"
  using assms(2-4)
proof (induction kvs arbitrary: f)
  case Nil
  show ?case
    by (simp add: param_value_def)
next
  case (Cons kv kvs)
  obtain k v where kv: "kv = (k, v)"
    by (cases kv)
  have fresh: "k \<notin> fst ` set kvs" and dist: "distinct (map fst kvs)"
    using Cons.prems(1) kv by auto
  have "map_of kvs k = None"
    using fresh by (simp add: map_of_eq_None_iff)
  then have knone: "param_value kvs k = None"
    by (simp add: param_value_def)
  show ?case
  proof (cases "v = JUndefined")
    case True
    have "(\<lambda>nm. case param_value kvs nm of Some r \<Rightarrow> Some r | None \<Rightarrow> f nm)
        = (\<lambda>nm. case param_value (kv # kvs) nm of Some r \<Rightarrow> Some r | None \<Rightarrow> f nm)"
      using kv True knone Cons.prems(2) by (auto simp: param_value_def fun_eq_iff)
    moreover have "fold param_step kvs (substitute f s)
        = substitute (\<lambda>nm. case param_value kvs nm of Some r \<Rightarrow> Some r | None \<Rightarrow> f nm) s"
      using Cons.IH [of f] dist Cons.prems(2,3) by simp
    ultimately show ?thesis
      using kv True by (simp add: param_step_def)
  next
    case False
    define r where "r = encodeURIComponent (js_String v)"
    have rc: "CHR '':'' \<notin> set r"
      using encodeURIComponent_name_chars [of "js_String v"]
      by (simp add: r_def name_chars_no_colon)
    have step: "param_step kv (substitute f s) = substitute (\<lambda>a. if a = k then Some r else f a) s"
      using replace_param_substitute [OF assms(1), of k f r] Cons.prems(2,3) kv False
      by (simp add: param_step_def r_def)
    have p1: "\<forall>k' \<in> fst ` set kvs. list_all name_char k'
        \<and> (\<lambda>a. if a = k then Some r else f a) k' = None"
      using Cons.prems(2) fresh by auto
    have p2: "\<forall>nm r'. (\<lambda>a. if a = k then Some r else f a) nm = Some r' \<longrightarrow> CHR '':'' \<notin> set r'"
      using Cons.prems(3) rc by auto
    have "fold param_step kvs (substitute (\<lambda>a. if a = k then Some r else f a) s)
        = substitute (\<lambda>nm. case param_value kvs nm of Some r' \<Rightarrow> Some r'
                             | None \<Rightarrow> (\<lambda>a. if a = k then Some r else f a) nm) s"
      using dist p1 p2 by (rule Cons.IH)
    moreover have "(\<lambda>nm. case param_value kvs nm of Some r' \<Rightarrow> Some r'
                      | None \<Rightarrow> (\<lambda>a. if a = k then Some r else f a) nm)
        = (\<lambda>nm. case param_value (kv # kvs) nm of Some r' \<Rightarrow> Some r' | None \<Rightarrow> f nm)"
      using kv False knone by (auto simp: param_value_def fun_eq_iff r_def split: option.splits)
    ultimately show ?thesis
      using step by simp
  qed
qed

lemma replaceUrlParams_closed_form:
  assumes "separated s" and "distinct (map fst (entries ps))"
    and "list_all plain_key (map fst (entries ps))"
  shows "replaceUrlParams s ps = substitute (param_value (entries ps)) s"
proof -
  have "fold param_step (entries ps) (substitute (\<lambda>nm. None) s)
      = substitute (\<lambda>nm. case param_value (entries ps) nm of Some r \<Rightarrow> Some r | None \<Rightarrow> None) s"
    using assms by (intro param_fold) (auto simp: list_all_iff plain_key_def)
  moreover have "(\<lambda>nm. case param_value (entries ps) nm of Some r \<Rightarrow> Some r | None \<Rightarrow> None)
      = param_value (entries ps)"
    by (auto simp: fun_eq_iff split: option.splits)
  ultimately show ?thesis
    by (simp add: replaceUrlParams_def substitute_nothing param_step_def)
qed


lemma replace_param_bounded:
  assumes "CHR '':'' \<notin> set pre" and "boundary rest"
  shows "replace_param key rep (pre @ CHR '':'' # key @ rest) = pre @ rep @ replace_param key rep rest"
  using assms by (simp add: replace_param_prefix)

lemma replace_param_unbounded:
  assumes "CHR '':'' \<notin> set pre" and "CHR '':'' \<notin> set key" and "\<not> boundary rest"
  shows "replace_param key rep (pre @ CHR '':'' # key @ rest)
           = pre @ CHR '':'' # key @ replace_param key rep rest"
  using assms by (simp add: replace_param_prefix)

lemma replace_param_no_match:
  "(\<forall>pre rest. s = pre @ CHR '':'' # key @ rest \<longrightarrow> \<not> boundary rest) \<Longrightarrow>
     replace_param key rep s = s"
proof (induction key rep s rule: replace_param.induct)
  case (1 key rep)
  show ?case by simp
next
  case (2 key rep c cs)
  have nomatch: "\<not> (c = CHR '':'' \<and> take (length key) cs = key \<and> boundary (drop (length key) cs))"
  proof
    assume m: "c = CHR '':'' \<and> take (length key) cs = key \<and> boundary (drop (length key) cs)"
    then have "c # cs = [] @ CHR '':'' # key @ drop (length key) cs"
      by (metis append_Nil append_take_drop_id)
    then show False
      using "2.prems" m by blast
  qed
  have "\<forall>pre rest. cs = pre @ CHR '':'' # key @ rest \<longrightarrow> \<not> boundary rest"
  proof (intro allI impI)
    fix pre rest
    assume "cs = pre @ CHR '':'' # key @ rest"
    then have "c # cs = (c # pre) @ CHR '':'' # key @ rest"
      by simp
    then show "\<not> boundary rest"
      using "2.prems" by blast
  qed
  then have "replace_param key rep cs = cs"
    using "2.IH"(2) nomatch by blast
  then show ?case
    using nomatch by auto
qed

text \<open>
  C6, as the code has it. The keys of the params object are distinct and plain. On a
  separated template the result is the substitution by name in one pass: every bounded
  placeholder whose name is a key with a value other than \<open>undefined\<close> becomes the
  encoded value, everything else stays; so the order of the keys does not matter there.
  On any template, for one key: an occurrence of \<open>:key\<close> with no colon before it is
  replaced when what follows is the end, \<open>/\<close>, \<open>?\<close> or \<open>#\<close>, and is left when it is not;
  a key with no occurrence bounded on the right leaves the string as it is.
\<close>

theorem replaceUrlParams_by_name:
  assumes "distinct (map fst (entries ps))" and "list_all plain_key (map fst (entries ps))"
  shows "(separated u \<longrightarrow> replaceUrlParams u ps = substitute (param_value (entries ps)) u)
    \<and> (separated u \<and> distinct (map fst (entries qs)) \<and> set (entries qs) = set (entries ps)
         \<longrightarrow> replaceUrlParams u qs = replaceUrlParams u ps)
    \<and> (\<forall>key rep pre rest. CHR '':'' \<notin> set pre \<and> boundary rest \<longrightarrow>
          replace_param key rep (pre @ CHR '':'' # key @ rest)
            = pre @ rep @ replace_param key rep rest)
    \<and> (\<forall>key rep pre rest. CHR '':'' \<notin> set pre \<and> CHR '':'' \<notin> set key \<and> \<not> boundary rest \<longrightarrow>
          replace_param key rep (pre @ CHR '':'' # key @ rest)
            = pre @ CHR '':'' # key @ replace_param key rep rest)
    \<and> (\<forall>key rep. (\<forall>pre rest. u = pre @ CHR '':'' # key @ rest \<longrightarrow> \<not> boundary rest) \<longrightarrow>
          replace_param key rep u = u)"
proof (intro conjI impI allI)
  assume "separated u"
  then show "replaceUrlParams u ps = substitute (param_value (entries ps)) u"
    using assms by (rule replaceUrlParams_closed_form)
next
  assume a: "separated u \<and> distinct (map fst (entries qs)) \<and> set (entries qs) = set (entries ps)"
  then have "list_all plain_key (map fst (entries qs))"
    using assms(2) by (simp add: list_all_iff)
  then have "replaceUrlParams u qs = substitute (param_value (entries qs)) u"
    using a by (intro replaceUrlParams_closed_form) simp_all
  moreover have "map_of (entries qs) = map_of (entries ps)"
    using a assms(1) by (simp add: map_of_inject_set)
  then have "param_value (entries qs) = param_value (entries ps)"
    by (simp add: param_value_def fun_eq_iff)
  ultimately show "replaceUrlParams u qs = replaceUrlParams u ps"
    using a assms by (simp add: replaceUrlParams_closed_form)
next
  fix key rep pre rest
  assume "CHR '':'' \<notin> set pre \<and> boundary rest"
  then show "replace_param key rep (pre @ CHR '':'' # key @ rest)
      = pre @ rep @ replace_param key rep rest"
    by (simp add: replace_param_bounded)
next
  fix key rep pre rest
  assume "CHR '':'' \<notin> set pre \<and> CHR '':'' \<notin> set key \<and> \<not> boundary rest"
  then show "replace_param key rep (pre @ CHR '':'' # key @ rest)
      = pre @ CHR '':'' # key @ replace_param key rep rest"
    by (simp add: replace_param_unbounded)
next
  fix key rep
  assume "\<forall>pre rest. u = pre @ CHR '':'' # key @ rest \<longrightarrow> \<not> boundary rest"
  then show "replace_param key rep u = u"
    by (rule replace_param_no_match)
qed

text \<open>The theorem at the spec's examples, in both key orders, and at a value that
  needs encoding.\<close>

theorem replaceUrlParams_by_name_witness:
  "replaceUrlParams ''/users/:id/:idx'' (JObj [(''id'', JStr ''5''), (''idx'', JStr ''9'')])
     = ''/users/5/9''
   \<and> replaceUrlParams ''/users/:id/:idx'' (JObj [(''idx'', JStr ''9''), (''id'', JStr ''5'')])
     = ''/users/5/9''
   \<and> replaceUrlParams ''/users/:identity'' (JObj [(''id'', JStr ''5'')]) = ''/users/:identity''
   \<and> replaceUrlParams ''/files/:name'' (JObj [(''name'', JStr ''a b/c'')]) = ''/files/a%20b%2Fc''
   \<and> separated ''/users/:id/:idx'' \<and> plain_key ''id'' \<and> plain_key ''idx''"
  using replaceUrlParams_by_name
    [of "JObj [(''id'', JStr ''5''), (''idx'', JStr ''9'')]" "''/users/:id/:idx''"
        "JObj [(''idx'', JStr ''9''), (''id'', JStr ''5'')]"]
  by (simp add: replaceUrlParams_def boundary_def string_defs name_char_def plain_key_def
      literal_key_def)

text \<open>C6 as the spec states it fails: on a template where one placeholder runs into
  the next, the order of the keys changes the result, since a value that was put in is
  scanned again with what stands before it.\<close>

theorem replaceUrlParams_order_counterexample:
  "replaceUrlParams ''/:a:b'' (JObj [(''b'', JStr ''x''), (''ax'', JStr ''1'')]) = ''/1''
   \<and> replaceUrlParams ''/:a:b'' (JObj [(''ax'', JStr ''1''), (''b'', JStr ''x'')]) = ''/:ax''"
  by (simp add: replaceUrlParams_def boundary_def string_defs)

end
